theory Spec2Isabelle
  imports Main "HOL-Library.Word" "HOL-Library.AList"
begin

section \<open>Python values and exceptions\<close>

text \<open>
  The flashcard payload is whatever \<^verbatim>\<open>json.loads\<close> returns: \<^verbatim>\<open>None\<close>, a bool, an int,
  a float (kept as its IEEE-754 binary64 bit pattern), a str, a list, or a dict. A dict
  decoded from JSON has string keys; it is kept as an association list in insertion
  order, looked up with \<open>map_of\<close>.
\<close>

datatype pyval =
    PNone
  | PBool bool
  | PInt int
  | PFloat "64 word"
  | PStr string
  | PList "pyval list"
  | PDict "(string \<times> pyval) list"

text \<open>
  Every \<^verbatim>\<open>raise\<close> of the source and every exception of the built-ins it calls is a value.
  \<open>ValueError\<close> carries its message. \<open>ClientError\<close> stands for whatever the chat
  completion client raises.
\<close>

datatype py_error =
    ValueError string
  | TypeError
  | KeyError string
  | IndexError
  | AttributeError
  | JSONDecodeError
  | ClientError string
  | FileNotFoundError
  | FileExistsError
  | NotADirectoryError
  | IsADirectoryError

subsection \<open>Built-in operations on values\<close>

text \<open>\<^verbatim>\<open>isinstance(v, list)\<close>, \<^verbatim>\<open>isinstance(v, dict)\<close>, \<^verbatim>\<open>isinstance(v, str)\<close>.\<close>

fun isinstance_list :: "pyval \<Rightarrow> bool" where
  "isinstance_list (PList xs) = True"
| "isinstance_list v = False"

fun isinstance_dict :: "pyval \<Rightarrow> bool" where
  "isinstance_dict (PDict d) = True"
| "isinstance_dict v = False"

fun isinstance_str :: "pyval \<Rightarrow> bool" where
  "isinstance_str (PStr s) = True"
| "isinstance_str v = False"

text \<open>\<^verbatim>\<open>sub in s\<close> on two strings: \<open>sub\<close> occurs in \<open>s\<close> as a contiguous run.\<close>

fun str_contains :: "string \<Rightarrow> string \<Rightarrow> bool" where
  "str_contains sub [] = (sub = [])"
| "str_contains sub (c # cs) = (take (length sub) (c # cs) = sub \<or> str_contains sub cs)"

text \<open>
  \<^verbatim>\<open>k in v\<close> for a string \<open>k\<close>: key membership on a dict, substring test on a str,
  element membership on a list, and a \<^verbatim>\<open>TypeError\<close> on a value that is not iterable.
\<close>

fun py_contains :: "string \<Rightarrow> pyval \<Rightarrow> py_error + bool" where
  "py_contains k (PDict d) = Inr (map_of d k \<noteq> None)"
| "py_contains k (PStr s) = Inr (str_contains k s)"
| "py_contains k (PList xs) = Inr (PStr k \<in> set xs)"
| "py_contains k v = Inl TypeError"

text \<open>
  \<^verbatim>\<open>v[k]\<close> for a string \<open>k\<close>: the value on a dict (\<^verbatim>\<open>KeyError\<close> when absent), a
  \<^verbatim>\<open>TypeError\<close> on every other value (a str and a list take integer indices only).
\<close>

fun py_getitem :: "pyval \<Rightarrow> string \<Rightarrow> py_error + pyval" where
  "py_getitem (PDict d) k = (case map_of d k of None \<Rightarrow> Inl (KeyError k) | Some v \<Rightarrow> Inr v)"
| "py_getitem v k = Inl TypeError"

text \<open>
  \<^verbatim>\<open>for x in v\<close>: the elements of a list, the keys of a dict, the characters of a str;
  a \<^verbatim>\<open>TypeError\<close> otherwise.
\<close>

fun py_iter :: "pyval \<Rightarrow> py_error + pyval list" where
  "py_iter (PList xs) = Inr xs"
| "py_iter (PDict d) = Inr (map (\<lambda>kv. PStr (fst kv)) d)"
| "py_iter (PStr s) = Inr (map (\<lambda>c. PStr [c]) s)"
| "py_iter v = Inl TypeError"

text \<open>\<^verbatim>\<open>len(v)\<close>.\<close>

fun py_len :: "pyval \<Rightarrow> py_error + nat" where
  "py_len (PList xs) = Inr (length xs)"
| "py_len (PDict d) = Inr (length d)"
| "py_len (PStr s) = Inr (length s)"
| "py_len v = Inl TypeError"

text \<open>Decimal digits of a natural number, most significant first.\<close>

fun digits :: "nat \<Rightarrow> string" where
  "digits n = (if n < 10 then [''0123456789'' ! n]
               else digits (n div 10) @ [''0123456789'' ! (n mod 10)])"

declare digits.simps [simp del]

definition str_int :: "int \<Rightarrow> string" where
  "str_int i = (if i < 0 then CHR ''-'' # digits (nat (- i)) else digits (nat i))"

text \<open>
  The conversion an f-string applies to a value, \<^verbatim>\<open>format(v, '')\<close>, which is \<^verbatim>\<open>str(v)\<close>
  for every type here: a str is itself; an int is its decimal form; \<^verbatim>\<open>True\<close>,
  \<^verbatim>\<open>False\<close> and \<^verbatim>\<open>None\<close> are their names. The text of a float, a list or a dict
  (\<^verbatim>\<open>float.__repr__\<close>, and the escaping of \<^verbatim>\<open>str.__repr__\<close> inside containers) is the
  parameter \<open>R\<close>.
\<close>

fun py_str :: "(pyval \<Rightarrow> string) \<Rightarrow> pyval \<Rightarrow> string" where
  "py_str R (PStr s) = s"
| "py_str R (PInt i) = str_int i"
| "py_str R (PBool b) = (if b then ''True'' else ''False'')"
| "py_str R PNone = ''None''"
| "py_str R v = R v"

section \<open>\<^verbatim>\<open>FlashcardGenerator.validate_flashcards\<close>\<close>

text \<open>The three checks of the loop body, for one card, in the order of the source.\<close>

fun validate_card :: "pyval \<Rightarrow> py_error + unit" where
  "validate_card (PDict d) =
     (case (map_of d ''front'', map_of d ''back'') of
        (Some front, Some back) \<Rightarrow>
          (if \<not> isinstance_str front \<or> \<not> isinstance_str back
           then Inl (ValueError ''The 'front' and 'back' keys must be strings.'')
           else Inr ())
      | _ \<Rightarrow> Inl (ValueError ''Each flashcard must have a 'front' and 'back' key.''))"
| "validate_card v = Inl (ValueError ''Each flashcard must be a dict.'')"

text \<open>The \<^verbatim>\<open>for card in flashcards\<close> loop: the first failing card raises.\<close>

fun validate_cards :: "pyval list \<Rightarrow> py_error + unit" where
  "validate_cards [] = Inr ()"
| "validate_cards (c # rest) =
     (case validate_card c of Inl e \<Rightarrow> Inl e | Inr u \<Rightarrow> validate_cards rest)"

fun validate_flashcards :: "pyval \<Rightarrow> py_error + unit" where
  "validate_flashcards (PList cards) = validate_cards cards"
| "validate_flashcards v = Inl (ValueError ''Flashcards must be a list.'')"

section \<open>\<^verbatim>\<open>FlashcardGenerator.format_flashcards\<close>\<close>

text \<open>
  The body of the loop for one card, given the output so far:
  \<^verbatim>\<open>if "front" in card and "back" in card\<close> (short-circuit), then the two subscripts
  and the f-string \<^verbatim>\<open>f"{front}\n?\n{back}\n\n"\<close>; otherwise the card is only logged.
\<close>

definition format_card :: "(pyval \<Rightarrow> string) \<Rightarrow> string \<Rightarrow> pyval \<Rightarrow> py_error + string" where
  "format_card R output c =
     (case py_contains ''front'' c of
        Inl e \<Rightarrow> Inl e
      | Inr False \<Rightarrow> Inr output
      | Inr True \<Rightarrow>
          (case py_contains ''back'' c of
             Inl e \<Rightarrow> Inl e
           | Inr False \<Rightarrow> Inr output
           | Inr True \<Rightarrow>
               (case py_getitem c ''front'' of
                  Inl e \<Rightarrow> Inl e
                | Inr front \<Rightarrow>
                    (case py_getitem c ''back'' of
                       Inl e \<Rightarrow> Inl e
                     | Inr back \<Rightarrow>
                         Inr (output @ py_str R front @ ''\<newline>?\<newline>''
                                @ py_str R back @ ''\<newline>\<newline>'')))))"

fun format_cards :: "(pyval \<Rightarrow> string) \<Rightarrow> string \<Rightarrow> pyval list \<Rightarrow> py_error + string" where
  "format_cards R output [] = Inr output"
| "format_cards R output (c # rest) =
     (case format_card R output c of
        Inl e \<Rightarrow> Inl e
      | Inr output' \<Rightarrow> format_cards R output' rest)"

text \<open>
  \<open>format_type\<close> is a string, as annotated in the source; \<open>flashcards\<close> is any value
  (the annotation \<^verbatim>\<open>dict\<close> is not what \<^verbatim>\<open>create_flashcard\<close> returns).
\<close>

definition format_flashcards ::
  "(pyval \<Rightarrow> string) \<Rightarrow> pyval \<Rightarrow> string \<Rightarrow> bool \<Rightarrow> py_error + string" where
  "format_flashcards R flashcards format_type include_tag =
     (if format_type = ''obsidian_spaced_repetition''
      then (case py_iter flashcards of
              Inl e \<Rightarrow> Inl e
            | Inr cards \<Rightarrow>
                format_cards R (if include_tag then ''#flashcards\<newline>\<newline>'' else '''') cards)
      else Inl (ValueError (''Invalid format type: '' @ format_type)))"

section \<open>\<^verbatim>\<open>FlashcardGenerator.create_flashcard\<close>\<close>

text \<open>
  What the source reads of the completion object: \<^verbatim>\<open>response.choices[i].message.content\<close>
  (a str or \<^verbatim>\<open>None\<close>) and \<^verbatim>\<open>response.usage.total_tokens\<close> (\<^verbatim>\<open>usage\<close> may be \<^verbatim>\<open>None\<close>).
\<close>

record response =
  choices :: "string option list"
  usage :: "nat option"

text \<open>
  What the run depends on and the repository does not define: the text of floats and
  containers (see \<open>py_str\<close>), the chat completion call as a function of the user
  message (model, system message and response format are fixed), \<^verbatim>\<open>json.loads\<close>, and
  \<^verbatim>\<open>os.getcwd()\<close> (an absolute, normalised path).
\<close>

record env =
  repr_other :: "pyval \<Rightarrow> string"
  chat :: "string \<Rightarrow> py_error + response"
  json_loads :: "string \<Rightarrow> py_error + pyval"
  getcwd :: string

definition user_message :: "string \<Rightarrow> string" where
  "user_message content =
     ''\<newline>        Create a flashcard from the following content:\<newline>        ''
     @ content
     @ ''\<newline>        NB: Return a valid JSON object.\<newline>        ''"

text \<open>
  The call, \<^verbatim>\<open>json.loads(response.choices[0].message.content)["cards"]\<close>, the two logging
  lines (whose f-strings evaluate \<^verbatim>\<open>len(flashcards)\<close> and \<^verbatim>\<open>response.usage.total_tokens\<close>),
  and the return. \<open>validate_flashcards\<close> is not called.
\<close>

definition create_flashcard :: "env \<Rightarrow> string \<Rightarrow> py_error + pyval" where
  "create_flashcard E content =
     (case chat E (user_message content) of
        Inl e \<Rightarrow> Inl e
      | Inr response \<Rightarrow>
          (case choices response of
             [] \<Rightarrow> Inl IndexError
           | message_content # others \<Rightarrow>
               (case message_content of
                  None \<Rightarrow> Inl TypeError
                | Some reply \<Rightarrow>
                    (case json_loads E reply of
                       Inl e \<Rightarrow> Inl e
                     | Inr decoded \<Rightarrow>
                         (case py_getitem decoded ''cards'' of
                            Inl e \<Rightarrow> Inl e
                          | Inr flashcards \<Rightarrow>
                              (case py_len flashcards of
                                 Inl e \<Rightarrow> Inl e
                               | Inr n \<Rightarrow>
                                   (case usage response of
                                      None \<Rightarrow> Inl AttributeError
                                    | Some total_tokens \<Rightarrow> Inr flashcards)))))))"

section \<open>Paths (\<^verbatim>\<open>posixpath\<close>) and the file system\<close>

definition startswith :: "string \<Rightarrow> string \<Rightarrow> bool" where
  "startswith s p = (take (length p) s = p)"

definition endswith :: "string \<Rightarrow> string \<Rightarrow> bool" where
  "endswith s p = (length p \<le> length s \<and> drop (length s - length p) s = p)"

text \<open>\<^verbatim>\<open>s.split('/')\<close> and \<^verbatim>\<open>'/'.join(xs)\<close>.\<close>

fun split_sep :: "string \<Rightarrow> string list" where
  "split_sep [] = [[]]"
| "split_sep (c # cs) =
     (if c = CHR ''/'' then [] # split_sep cs
      else (case split_sep cs of [] \<Rightarrow> [[c]] | x # xs \<Rightarrow> (c # x) # xs))"

fun sep_join :: "string list \<Rightarrow> string" where
  "sep_join [] = []"
| "sep_join [x] = x"
| "sep_join (x # y # ys) = x @ ''/'' @ sep_join (y # ys)"

text \<open>\<^verbatim>\<open>os.path.join(a, b)\<close>.\<close>

definition path_join :: "string \<Rightarrow> string \<Rightarrow> string" where
  "path_join a b =
     (if startswith b ''/'' then b
      else if a = [] \<or> endswith a ''/'' then a @ b
      else a @ ''/'' @ b)"

text \<open>
  \<^verbatim>\<open>os.path.normpath\<close>: empty and \<^verbatim>\<open>.\<close> components are dropped, \<^verbatim>\<open>..\<close> removes the
  component before it (and is kept at the front of a relative path); exactly two leading
  slashes are kept.
\<close>

definition norm_step :: "nat \<Rightarrow> string list \<Rightarrow> string \<Rightarrow> string list" where
  "norm_step initial_slashes new_comps component =
     (if component = [] \<or> component = ''.'' then new_comps
      else if component \<noteq> ''..'' \<or> (initial_slashes = 0 \<and> new_comps = [])
                \<or> (new_comps \<noteq> [] \<and> last new_comps = ''..'')
           then new_comps @ [component]
      else if new_comps \<noteq> [] then butlast new_comps
      else new_comps)"

definition normpath :: "string \<Rightarrow> string" where
  "normpath path =
     (if path = [] then ''.''
      else
        let initial_slashes =
              (if startswith path ''/''
               then (if startswith path ''//'' \<and> \<not> startswith path ''///'' then 2 else 1)
               else (0::nat));
            comps = foldl (norm_step initial_slashes) [] (split_sep path);
            p = replicate initial_slashes CHR ''/'' @ sep_join comps
        in if p = [] then ''.'' else p)"

definition abspath :: "string \<Rightarrow> string \<Rightarrow> string" where
  "abspath cwd path = normpath (if startswith path ''/'' then path else path_join cwd path)"

text \<open>\<^verbatim>\<open>[x for x in abspath(p).split('/') if x]\<close>: the components of the absolute path.\<close>

definition abs_comps :: "string \<Rightarrow> string \<Rightarrow> string list" where
  "abs_comps cwd path = filter (\<lambda>x. x \<noteq> []) (split_sep (abspath cwd path))"

fun common_prefix_len :: "'a list \<Rightarrow> 'a list \<Rightarrow> nat" where
  "common_prefix_len (x # xs) (y # ys) = (if x = y then Suc (common_prefix_len xs ys) else 0)"
| "common_prefix_len xs ys = 0"

text \<open>\<^verbatim>\<open>os.path.relpath(path, start)\<close>.\<close>

definition relpath :: "string \<Rightarrow> string \<Rightarrow> string \<Rightarrow> py_error + string" where
  "relpath cwd path start =
     (if path = [] then Inl (ValueError ''no path specified'')
      else
        let start_list = abs_comps cwd start;
            path_list = abs_comps cwd path;
            i = common_prefix_len start_list path_list;
            rel_list = replicate (length start_list - i) ''..'' @ drop i path_list
        in if rel_list = [] then Inr ''.'' else Inr (sep_join rel_list))"

text \<open>\<^verbatim>\<open>os.path.dirname\<close>: up to the last slash, trailing slashes stripped unless it is all slashes.\<close>

definition dirname :: "string \<Rightarrow> string" where
  "dirname p =
     (let head = rev (dropWhile (\<lambda>c. c \<noteq> CHR ''/'') (rev p))
      in if head \<noteq> [] \<and> head \<noteq> replicate (length head) CHR ''/''
         then rev (dropWhile (\<lambda>c. c = CHR ''/'') (rev head))
         else head)"

text \<open>\<^verbatim>\<open>os.path.basename\<close> and \<^verbatim>\<open>os.path.split\<close>: what follows the last slash, and the pair.\<close>

definition basename :: "string \<Rightarrow> string" where
  "basename p = rev (takeWhile (\<lambda>c. c \<noteq> CHR ''/'') (rev p))"

definition path_split :: "string \<Rightarrow> string \<times> string" where
  "path_split p = (dirname p, basename p)"

text \<open>
  The state a run reads and changes. Directories and files are keyed by the components of
  their absolute path; the root directory \<open>[]\<close> always exists. The order of \<open>fs_dirs\<close>
  and \<open>fs_files\<close> is the order in which a directory listing returns its entries. There
  are no symbolic links and no permissions. \<open>generated\<close> is the contents
  \<^verbatim>\<open>create_flashcard\<close> has been called with, in order; \<open>stdout\<close> is what has been
  printed.
\<close>

record world =
  fs_dirs :: "string list list"
  fs_files :: "(string list \<times> string) list"
  generated :: "string list"
  stdout :: "string list"

definition isdir :: "world \<Rightarrow> string list \<Rightarrow> bool" where
  "isdir w p = (p = [] \<or> p \<in> set (fs_dirs w))"

definition isfile :: "world \<Rightarrow> string list \<Rightarrow> bool" where
  "isfile w p = (map_of (fs_files w) p \<noteq> None)"

text \<open>
  Path resolution, as the operating system does it: the components of the path are
  followed one by one through the file system, from the root or from the working
  directory. An empty component and \<^verbatim>\<open>.\<close> stay where they are, \<^verbatim>\<open>..\<close> goes to the parent
  (the root is its own parent), a name goes to that entry. Every component is looked up
  in a directory: from a file the lookup is a \<^verbatim>\<open>NotADirectoryError\<close>, from a missing entry
  a \<^verbatim>\<open>FileNotFoundError\<close>. The entry reached by the last component need not exist.
\<close>

definition step_comp :: "string list \<Rightarrow> string \<Rightarrow> string list" where
  "step_comp cur c =
     (if c = [] \<or> c = ''.'' then cur
      else if c = ''..'' then butlast cur
      else cur @ [c])"

fun walk_comps :: "world \<Rightarrow> string list \<Rightarrow> string list \<Rightarrow> py_error + string list" where
  "walk_comps w cur [] = Inr cur"
| "walk_comps w cur (c # cs) =
     (if isdir w cur then walk_comps w (step_comp cur c) cs
      else if isfile w cur then Inl NotADirectoryError
      else Inl FileNotFoundError)"

definition start_dir :: "string \<Rightarrow> string \<Rightarrow> string list" where
  "start_dir cwd path =
     (if startswith path ''/'' then [] else filter (\<lambda>x. x \<noteq> []) (split_sep cwd))"

definition resolve :: "string \<Rightarrow> world \<Rightarrow> string \<Rightarrow> py_error + string list" where
  "resolve cwd w path =
     (if path = [] then Inl FileNotFoundError
      else walk_comps w (start_dir cwd path) (split_sep path))"

text \<open>\<^verbatim>\<open>os.path.exists\<close> and \<^verbatim>\<open>os.path.isdir\<close>: false when the path does not resolve.\<close>

definition path_exists :: "string \<Rightarrow> world \<Rightarrow> string \<Rightarrow> bool" where
  "path_exists cwd w path =
     (case resolve cwd w path of Inl e \<Rightarrow> False | Inr p \<Rightarrow> isdir w p \<or> isfile w p)"

definition path_isdir :: "string \<Rightarrow> world \<Rightarrow> string \<Rightarrow> bool" where
  "path_isdir cwd w path =
     (case resolve cwd w path of Inl e \<Rightarrow> False | Inr p \<Rightarrow> isdir w p)"

text \<open>
  \<^verbatim>\<open>os.scandir(dir)\<close> as \<^verbatim>\<open>os.walk\<close> uses it: the names of the sub-directories and of the
  other entries of \<open>dir\<close>; \<open>None\<close> when \<open>dir\<close> is not a directory (the \<^verbatim>\<open>OSError\<close> that
  \<^verbatim>\<open>os.walk\<close> swallows).
\<close>

definition scandir :: "string \<Rightarrow> world \<Rightarrow> string \<Rightarrow> (string list \<times> string list) option" where
  "scandir cwd w dir =
     (case resolve cwd w dir of
        Inl e \<Rightarrow> None
      | Inr p \<Rightarrow>
          if \<not> isdir w p then None
          else Some (map last (filter (\<lambda>d. d \<noteq> [] \<and> butlast d = p) (fs_dirs w)),
                     map last (filter (\<lambda>f. f \<noteq> [] \<and> butlast f = p) (map fst (fs_files w)))))"

text \<open>
  \<^verbatim>\<open>os.mkdir(path)\<close>: slashes at the end of the path are ignored; the path must resolve
  (so its parent is a directory) and name nothing that exists.
\<close>

definition rstrip_sep :: "string \<Rightarrow> string" where
  "rstrip_sep p = rev (dropWhile (\<lambda>c. c = CHR ''/'') (rev p))"

definition mkdir :: "string \<Rightarrow> string \<Rightarrow> world \<Rightarrow> (py_error + unit) \<times> world" where
  "mkdir cwd path w =
     (case resolve cwd w (if rstrip_sep path = [] then path else rstrip_sep path) of
        Inl e \<Rightarrow> (Inl e, w)
      | Inr p \<Rightarrow>
          if isdir w p \<or> isfile w p then (Inl FileExistsError, w)
          else (Inr (), w\<lparr>fs_dirs := fs_dirs w @ [p]\<rparr>))"

text \<open>
  \<^verbatim>\<open>os.makedirs(name, exist_ok=True)\<close>, as the library has it. \<open>makedirs_split\<close> is its
  \<^verbatim>\<open>head, tail = path.split(name)\<close>, split once more when \<^verbatim>\<open>tail\<close> is empty.
  \<open>mkdir_exist_ok\<close> is its last statement: \<^verbatim>\<open>mkdir(name)\<close>, whose \<^verbatim>\<open>OSError\<close> is dropped
  when \<^verbatim>\<open>name\<close> is a directory. When \<^verbatim>\<open>head\<close> does not exist it is made first, by the
  same function; a \<^verbatim>\<open>FileExistsError\<close> of that call is dropped, and nothing more is done
  when \<^verbatim>\<open>tail\<close> is \<^verbatim>\<open>.\<close>.
\<close>

definition makedirs_split :: "string \<Rightarrow> string \<times> string" where
  "makedirs_split name =
     (if snd (path_split name) = [] then path_split (fst (path_split name))
      else path_split name)"

definition mkdir_exist_ok :: "string \<Rightarrow> string \<Rightarrow> world \<Rightarrow> (py_error + unit) \<times> world" where
  "mkdir_exist_ok cwd name w =
     (case mkdir cwd name w of
        (Inl e, w') \<Rightarrow> if path_isdir cwd w' name then (Inr (), w') else (Inl e, w')
      | (Inr u, w') \<Rightarrow> (Inr (), w'))"

function makedirs :: "string \<Rightarrow> string \<Rightarrow> world \<Rightarrow> (py_error + unit) \<times> world" where
  "makedirs cwd name w =
     (if fst (makedirs_split name) \<noteq> [] \<and> snd (makedirs_split name) \<noteq> []
           \<and> \<not> path_exists cwd w (fst (makedirs_split name))
      then (case makedirs cwd (fst (makedirs_split name)) w of
              (Inl e, w') \<Rightarrow>
                if e \<noteq> FileExistsError then (Inl e, w')
                else if snd (makedirs_split name) = ''.'' then (Inr (), w')
                else mkdir_exist_ok cwd name w'
            | (Inr u, w') \<Rightarrow>
                if snd (makedirs_split name) = ''.'' then (Inr (), w')
                else mkdir_exist_ok cwd name w')
      else mkdir_exist_ok cwd name w)"
  by pat_completeness auto

termination makedirs
proof -
  have db: "length (dirname p) + length (basename p) \<le> length p" for p
  proof -
    have a: "length (rev (dropWhile (\<lambda>c. c \<noteq> CHR ''/'') (rev p))) + length (basename p)
               = length p"
      unfolding basename_def length_rev
      by (metis length_append length_rev takeWhile_dropWhile_id add.commute)
    have b: "length (dirname p) \<le> length (rev (dropWhile (\<lambda>c. c \<noteq> CHR ''/'') (rev p)))"
      unfolding dirname_def Let_def
      by (simp add: length_dropWhile_le)
    from a b show ?thesis by linarith
  qed
  have shorter: "length (fst (makedirs_split name)) < length name"
    if "snd (makedirs_split name) \<noteq> []" for name
  proof (cases "basename name = []")
    case False
    then have "0 < length (basename name)" by simp
    with db [of name] have "length (dirname name) < length name" by linarith
    moreover from False have "fst (makedirs_split name) = dirname name"
      by (simp add: makedirs_split_def path_split_def)
    ultimately show ?thesis by simp
  next
    case True
    with that have "basename (dirname name) \<noteq> []"
      by (simp add: makedirs_split_def path_split_def)
    then have "0 < length (basename (dirname name))" by simp
    with db [of "dirname name"] db [of name]
    have "length (dirname (dirname name)) < length name" by linarith
    moreover from True have "fst (makedirs_split name) = dirname (dirname name)"
      by (simp add: makedirs_split_def path_split_def)
    ultimately show ?thesis by simp
  qed
  show ?thesis
    by (relation "measure (\<lambda>(cwd, name, w). length name)") (simp_all add: shorter)
qed

declare makedirs.simps [simp del]

text \<open>\<^verbatim>\<open>open(path, "r").read()\<close>.\<close>

definition read_file :: "string \<Rightarrow> world \<Rightarrow> string \<Rightarrow> py_error + string" where
  "read_file cwd w path =
     (case resolve cwd w path of
        Inl e \<Rightarrow> Inl e
      | Inr p \<Rightarrow>
          (case map_of (fs_files w) p of
             Some content \<Rightarrow> Inr content
           | None \<Rightarrow> if isdir w p then Inl IsADirectoryError else Inl FileNotFoundError))"

text \<open>\<^verbatim>\<open>open(path, "w")\<close> followed by \<^verbatim>\<open>write(content)\<close>: the file is created or replaced.\<close>

definition write_file :: "string \<Rightarrow> world \<Rightarrow> string \<Rightarrow> string \<Rightarrow> (py_error + unit) \<times> world" where
  "write_file cwd w path content =
     (case resolve cwd w path of
        Inl e \<Rightarrow> (Inl e, w)
      | Inr p \<Rightarrow>
          if isdir w p then (Inl IsADirectoryError, w)
          else (Inr (), w\<lparr>fs_files := AList.update p content (fs_files w)\<rparr>))"

section \<open>\<^verbatim>\<open>FlashcardGenerator.__init__\<close>, \<^verbatim>\<open>process_file\<close>, \<^verbatim>\<open>process_files\<close>\<close>

record generator =
  input_dir :: string
  output_dir :: string

text \<open>The two directories as \<^verbatim>\<open>__init__\<close> sets them (\<^verbatim>\<open>not d\<close> holds of \<^verbatim>\<open>None\<close> and of \<^verbatim>\<open>""\<close>).\<close>

definition init :: "env \<Rightarrow> string option \<Rightarrow> string option \<Rightarrow> generator" where
  "init E input_dir_arg output_dir_arg =
     (let inp = (case input_dir_arg of
                   None \<Rightarrow> getcwd E
                 | Some d \<Rightarrow> if d = [] then getcwd E else d)
      in \<lparr>input_dir = inp,
          output_dir = (case output_dir_arg of
                          None \<Rightarrow> path_join inp ''flashcards''
                        | Some d \<Rightarrow> if d = [] then path_join inp ''flashcards''
                                    else path_join d ''flashcards'')\<rparr>)"

definition process_file ::
  "env \<Rightarrow> string \<Rightarrow> string \<Rightarrow> bool \<Rightarrow> world \<Rightarrow> (py_error + unit) \<times> world" where
  "process_file E input_file_path output_file_path print_output w =
     (case read_file (getcwd E) w input_file_path of
        Inl e \<Rightarrow> (Inl e, w)
      | Inr content \<Rightarrow>
          (case create_flashcard E content of
             Inl e \<Rightarrow> (Inl e, w\<lparr>generated := generated w @ [content]\<rparr>)
           | Inr flashcards \<Rightarrow>
               (case format_flashcards (repr_other E) flashcards
                       ''obsidian_spaced_repetition'' True of
                  Inl e \<Rightarrow> (Inl e, w\<lparr>generated := generated w @ [content]\<rparr>)
                | Inr output_content \<Rightarrow>
                    if print_output
                    then (Inr (), w\<lparr>generated := generated w @ [content],
                                    stdout := stdout w @ [output_content]\<rparr>)
                    else write_file (getcwd E) (w\<lparr>generated := generated w @ [content]\<rparr>)
                           output_file_path output_content)))"

text \<open>The body of \<^verbatim>\<open>for file in files\<close>, for one file name of the directory \<open>root\<close>.\<close>

definition process_files_file ::
  "env \<Rightarrow> generator \<Rightarrow> bool \<Rightarrow> string \<Rightarrow> string \<Rightarrow> world \<Rightarrow> (py_error + unit) \<times> world" where
  "process_files_file E self overwrite_files root file w =
     (if endswith file ''.md''
      then (case relpath (getcwd E) (path_join root file) (input_dir self) of
              Inl e \<Rightarrow> (Inl e, w)
            | Inr rel \<Rightarrow>
                (case makedirs (getcwd E) (dirname (path_join (output_dir self) rel)) w of
                   (Inl e, w') \<Rightarrow> (Inl e, w')
                 | (Inr u, w') \<Rightarrow>
                     if path_exists (getcwd E) w' (path_join (output_dir self) rel)
                          \<and> \<not> overwrite_files
                     then (Inr (), w')
                     else process_file E (path_join root file)
                            (path_join (output_dir self) rel) False w'))
      else (Inr (), w))"

fun process_files_loop ::
  "env \<Rightarrow> generator \<Rightarrow> bool \<Rightarrow> string \<Rightarrow> string list \<Rightarrow> world \<Rightarrow> (py_error + unit) \<times> world" where
  "process_files_loop E self overwrite_files root [] w = (Inr (), w)"
| "process_files_loop E self overwrite_files root (file # files) w =
     (case process_files_file E self overwrite_files root file w of
        (Inl e, w') \<Rightarrow> (Inl e, w')
      | (Inr u, w') \<Rightarrow> process_files_loop E self overwrite_files root files w')"

text \<open>The body of \<^verbatim>\<open>for root, _, files in os.walk(...)\<close>, for one visited directory.\<close>

definition process_files_root ::
  "env \<Rightarrow> generator \<Rightarrow> bool \<Rightarrow> string \<Rightarrow> string list \<Rightarrow> world \<Rightarrow> (py_error + unit) \<times> world" where
  "process_files_root E self overwrite_files root files w =
     (if startswith root (output_dir self) then (Inr (), w)
      else process_files_loop E self overwrite_files root files w)"

text \<open>
  \<^verbatim>\<open>os.walk\<close>, top-down: the directories still to visit are a stack; a directory is listed
  when it is reached (so it sees what the run has created by then), its body runs, and
  its sub-directories are visited next, in listing order. The first argument bounds the
  number of directories taken from the stack: \<open>None\<close> means the bound was reached.
\<close>

fun process_files_walk ::
  "nat \<Rightarrow> env \<Rightarrow> generator \<Rightarrow> bool \<Rightarrow> string list \<Rightarrow> world
     \<Rightarrow> ((py_error + unit) \<times> world) option" where
  "process_files_walk fuel E self overwrite_files [] w = Some (Inr (), w)"
| "process_files_walk 0 E self overwrite_files (dir # stack) w = None"
| "process_files_walk (Suc fuel) E self overwrite_files (dir # stack) w =
     (case scandir (getcwd E) w dir of
        None \<Rightarrow> process_files_walk fuel E self overwrite_files stack w
      | Some (dirs, files) \<Rightarrow>
          (case process_files_root E self overwrite_files dir files w of
             (Inl e, w') \<Rightarrow> Some (Inl e, w')
           | (Inr u, w') \<Rightarrow>
               process_files_walk fuel E self overwrite_files
                 (map (path_join dir) dirs @ stack) w'))"

definition process_files ::
  "nat \<Rightarrow> env \<Rightarrow> generator \<Rightarrow> bool \<Rightarrow> world \<Rightarrow> ((py_error + unit) \<times> world) option" where
  "process_files fuel E self overwrite_files w =
     process_files_walk fuel E self overwrite_files [input_dir self] w"

section \<open>What the specification says, as predicates\<close>

text \<open>
  The block the specification gives for one record: \<^verbatim>\<open>front\<close>, a line holding only
  \<^verbatim>\<open>?\<close>, \<^verbatim>\<open>back\<close>, a blank line; nothing for a record that lacks either key.
\<close>

definition spec_card_block :: "(pyval \<Rightarrow> string) \<Rightarrow> pyval \<Rightarrow> string" where
  "spec_card_block R c =
     (case c of
        PDict d \<Rightarrow>
          (case (map_of d ''front'', map_of d ''back'') of
             (Some front, Some back) \<Rightarrow>
               py_str R front @ ''\<newline>?\<newline>'' @ py_str R back @ ''\<newline>\<newline>''
           | _ \<Rightarrow> '''')
      | _ \<Rightarrow> '''')"

text \<open>
  The constraint of the validator's contract that a card breaks, with the message that
  states it: the card is not a keyed record; it lacks \<^verbatim>\<open>front\<close> or \<^verbatim>\<open>back\<close>; one of the
  two values is not a string.
\<close>

definition spec_card_violation :: "pyval \<Rightarrow> py_error \<Rightarrow> bool" where
  "spec_card_violation c e =
     ((\<not> isinstance_dict c \<and> e = ValueError ''Each flashcard must be a dict.'')
    \<or> (\<exists>d. c = PDict d \<and> (map_of d ''front'' = None \<or> map_of d ''back'' = None)
          \<and> e = ValueError ''Each flashcard must have a 'front' and 'back' key.'')
    \<or> (\<exists>d f b. c = PDict d \<and> map_of d ''front'' = Some f \<and> map_of d ''back'' = Some b
          \<and> (\<not> isinstance_str f \<or> \<not> isinstance_str b)
          \<and> e = ValueError ''The 'front' and 'back' keys must be strings.''))"

text \<open>
  \<open>p\<close> is a sub-path of \<open>q\<close>: the components of \<open>q\<close> are the first components of \<open>p\<close>.
\<close>

definition spec_is_subpath :: "string \<Rightarrow> string \<Rightarrow> string \<Rightarrow> bool" where
  "spec_is_subpath cwd p q =
     (take (length (abs_comps cwd q)) (abs_comps cwd p) = abs_comps cwd q)"

text \<open>Every file of \<open>w\<close> is a file of \<open>w'\<close> with the same contents.\<close>

definition files_kept :: "world \<Rightarrow> world \<Rightarrow> bool" where
  "files_kept w w' = (\<forall>p c. map_of (fs_files w) p = Some c \<longrightarrow> map_of (fs_files w') p = Some c)"

text \<open>From \<open>w\<close> to \<open>w'\<close> directories were added and nothing else changed.\<close>

definition only_dirs_added :: "world \<Rightarrow> world \<Rightarrow> bool" where
  "only_dirs_added w w' =
     (fs_files w' = fs_files w \<and> generated w' = generated w \<and> stdout w' = stdout w
      \<and> set (fs_dirs w) \<subseteq> set (fs_dirs w'))"

subsection \<open>Collaborators for the worked examples\<close>

text \<open>
  A completion client that answers every message with one choice, a decoder that reads
  that reply as \<^verbatim>\<open>{"cards": [{"front": "Q", "back": "A"}]}\<close>, the working directory
  \<^verbatim>\<open>/\<close>; and a generator over \<^verbatim>\<open>/notes\<close> with the default output directory.
\<close>

abbreviation stub_env :: env where
  "stub_env \<equiv>
     \<lparr>repr_other = (\<lambda>v. []),
      chat = (\<lambda>m. Inr \<lparr>choices = [Some ''reply''], usage = Some 12\<rparr>),
      json_loads = (\<lambda>s. Inr (PDict [(''cards'',
                      PList [PDict [(''front'', PStr ''Q''), (''back'', PStr ''A'')]])])),
      getcwd = ''/''\<rparr>"

abbreviation notes_generator :: generator where
  "notes_generator \<equiv> \<lparr>input_dir = ''/notes'', output_dir = ''/notes/flashcards''\<rparr>"

section \<open>Properties of the validator and the formatter\<close>

lemma validate_cards_ok_iff:
  "validate_cards cards = Inr () \<longleftrightarrow>
     (\<forall>c \<in> set cards. \<exists>d f b. c = PDict d \<and> map_of d ''front'' = Some (PStr f)
         \<and> map_of d ''back'' = Some (PStr b))"
proof (induction cards)
  case Nil
  show ?case by simp
next
  case (Cons c rest)
  have one: "validate_card c = Inr () \<longleftrightarrow>
      (\<exists>d f b. c = PDict d \<and> map_of d ''front'' = Some (PStr f) \<and> map_of d ''back'' = Some (PStr b))"
  proof (cases c)
    case (PDict d)
    show ?thesis
    proof (cases "map_of d ''front''")
      case None
      with PDict show ?thesis by simp
    next
      case (Some f)
      note f = this
      show ?thesis
      proof (cases "map_of d ''back''")
        case None
        with PDict f show ?thesis by simp
      next
        case (Some b)
        with PDict f show ?thesis
          by (cases f; cases b) simp_all
      qed
    qed
  qed simp_all
  show ?case using Cons.IH one
    by (cases "validate_card c") auto
qed

lemma validate_flashcards_ok_iff:
  "validate_flashcards v = Inr () \<longleftrightarrow>
      (\<exists>cards. v = PList cards \<and>
         (\<forall>c \<in> set cards. \<exists>d f b. c = PDict d \<and> map_of d ''front'' = Some (PStr f)
             \<and> map_of d ''back'' = Some (PStr b)))"
proof (cases v)
  case (PList cards)
  with validate_cards_ok_iff [of cards] show ?thesis by simp
qed simp_all

lemma validate_card_error:
  assumes e: "validate_card c = Inl e"
  shows "spec_card_violation c e"
proof (cases c)
  case (PDict d)
  show ?thesis
  proof (cases "map_of d ''front''")
    case None
    with PDict e show ?thesis by (simp add: spec_card_violation_def)
  next
    case (Some f)
    note f = this
    show ?thesis
    proof (cases "map_of d ''back''")
      case None
      with PDict e f show ?thesis by (simp add: spec_card_violation_def)
    next
      case (Some b)
      with PDict e f show ?thesis
        by (cases "isinstance_str f \<and> isinstance_str b") (auto simp: spec_card_violation_def)
    qed
  qed
qed (use e in \<open>simp_all add: spec_card_violation_def\<close>)

lemma validate_cards_error:
  "validate_cards cards = Inl e \<Longrightarrow> \<exists>c \<in> set cards. validate_card c = Inl e"
proof (induction cards)
  case Nil
  then show ?case by simp
next
  case (Cons c rest)
  then show ?case by (cases "validate_card c") auto
qed

lemma validate_flashcards_error:
  assumes e: "validate_flashcards v = Inl e"
  shows "(\<not> isinstance_list v \<and> e = ValueError ''Flashcards must be a list.'')
       \<or> (\<exists>cards c. v = PList cards \<and> c \<in> set cards \<and> spec_card_violation c e)"
proof (cases v)
  case (PList cards)
  with e have "validate_cards cards = Inl e" by simp
  from validate_cards_error [OF this] obtain c where c: "c \<in> set cards" "validate_card c = Inl e"
    by blast
  from validate_card_error [OF c(2)] c(1) PList show ?thesis by blast
qed (use e in simp_all)

lemma format_card_dict:
  "format_card R out (PDict d) = Inr (out @ spec_card_block R (PDict d))"
  by (cases "map_of d ''front''"; cases "map_of d ''back''")
     (simp_all add: format_card_def spec_card_block_def)

lemma format_cards_dicts:
  "\<forall>c \<in> set cards. isinstance_dict c \<Longrightarrow>
     format_cards R out cards = Inr (out @ concat (map (spec_card_block R) cards))"
proof (induction cards arbitrary: out)
  case Nil
  show ?case by simp
next
  case (Cons c rest)
  from Cons.prems obtain d where c: "c = PDict d" by (cases c) auto
  from Cons.prems have "\<forall>c \<in> set rest. isinstance_dict c" by simp
  from Cons.IH [OF this] show ?case
    by (simp add: c format_card_dict)
qed

lemma format_cards_append:
  "format_cards R out (xs @ ys) =
     (case format_cards R out xs of Inl e \<Rightarrow> Inl e | Inr out' \<Rightarrow> format_cards R out' ys)"
  by (induction xs arbitrary: out) (auto split: sum.splits)

lemma format_card_missing_key:
  "map_of d ''front'' = None \<or> map_of d ''back'' = None \<Longrightarrow>
   format_card R out (PDict d) = Inr out"
  by (cases "map_of d ''front''"; cases "map_of d ''back''") (simp_all add: format_card_def)

lemma format_cards_all_missing:
  "\<forall>c \<in> set cards. \<exists>d. c = PDict d \<and> (map_of d ''front'' = None \<or> map_of d ''back'' = None)
   \<Longrightarrow> format_cards R out cards = Inr out"
proof (induction cards)
  case Nil
  show ?case by simp
next
  case (Cons c rest)
  from Cons.prems obtain d where d: "c = PDict d"
    "map_of d ''front'' = None \<or> map_of d ''back'' = None" by auto
  from Cons.prems have "format_cards R out rest = Inr out" by (intro Cons.IH) simp
  with d format_card_missing_key [OF d(2)] show ?case by simp
qed

section \<open>Properties of \<^verbatim>\<open>create_flashcard\<close>\<close>

lemma py_len_Inr_iff:
  "(\<exists>n. py_len v = Inr n) \<longleftrightarrow> (isinstance_list v \<or> isinstance_str v \<or> isinstance_dict v)"
  by (cases v) simp_all

lemma py_len_Inl_iff:
  "py_len v = Inl e \<longleftrightarrow>
     (\<not> isinstance_list v \<and> \<not> isinstance_str v \<and> \<not> isinstance_dict v \<and> e = TypeError)"
  by (cases v) auto

lemma py_getitem_Inr_iff:
  "py_getitem v k = Inr x \<longleftrightarrow> (\<exists>d. v = PDict d \<and> map_of d k = Some x)"
  by (cases v) (auto split: option.splits)

lemma py_getitem_Inl_iff:
  "py_getitem v k = Inl e \<longleftrightarrow>
     (\<not> isinstance_dict v \<and> e = TypeError) \<or> (\<exists>d. v = PDict d \<and> map_of d k = None \<and> e = KeyError k)"
  by (cases v) (auto split: option.splits)

text \<open>The steps of \<open>create_flashcard\<close> after the reply has been decoded.\<close>

lemma create_flashcard_decoded:
  assumes c: "chat E (user_message content) = Inr resp"
    and ch: "choices resp = Some reply # others"
    and j: "json_loads E reply = Inr decoded"
  shows "create_flashcard E content =
     (case py_getitem decoded ''cards'' of
        Inl e \<Rightarrow> Inl e
      | Inr flashcards \<Rightarrow>
          (case py_len flashcards of
             Inl e \<Rightarrow> Inl e
           | Inr n \<Rightarrow> (case usage resp of None \<Rightarrow> Inl AttributeError | Some t \<Rightarrow> Inr flashcards)))"
  by (simp add: create_flashcard_def c ch j)

lemma create_flashcard_decoded_Inr:
  assumes c: "chat E (user_message content) = Inr resp"
    and ch: "choices resp = Some reply # others"
    and j: "json_loads E reply = Inr decoded"
  shows "create_flashcard E content = Inr flashcards \<longleftrightarrow>
     (\<exists>d total_tokens. decoded = PDict d \<and> map_of d ''cards'' = Some flashcards
        \<and> (isinstance_list flashcards \<or> isinstance_str flashcards \<or> isinstance_dict flashcards)
        \<and> usage resp = Some total_tokens)"
proof (cases "py_getitem decoded ''cards''")
  case (Inl x)
  with create_flashcard_decoded [OF c ch j] py_getitem_Inr_iff [of decoded "''cards''" flashcards]
  show ?thesis by auto
next
  case (Inr cards)
  note g = this
  with py_getitem_Inr_iff [of decoded "''cards''" cards]
  obtain d where d: "decoded = PDict d" "map_of d ''cards'' = Some cards" by auto
  show ?thesis
  proof (cases "py_len cards")
    case (Inl x)
    with py_len_Inr_iff [of cards]
    have "\<not> (isinstance_list cards \<or> isinstance_str cards \<or> isinstance_dict cards)" by auto
    with create_flashcard_decoded [OF c ch j] g Inl d show ?thesis by auto
  next
    case (Inr n)
    with py_len_Inr_iff [of cards]
    have l: "isinstance_list cards \<or> isinstance_str cards \<or> isinstance_dict cards" by auto
    from create_flashcard_decoded [OF c ch j] g Inr d l show ?thesis
      by (cases "usage resp") auto
  qed
qed

lemma create_flashcard_decoded_Inl:
  assumes c: "chat E (user_message content) = Inr resp"
    and ch: "choices resp = Some reply # others"
    and j: "json_loads E reply = Inr decoded"
  shows "create_flashcard E content = Inl e \<longleftrightarrow>
     (\<not> isinstance_dict decoded \<and> e = TypeError)
   \<or> (\<exists>d. decoded = PDict d \<and>
         ((map_of d ''cards'' = None \<and> e = KeyError ''cards'')
        \<or> (\<exists>cards. map_of d ''cards'' = Some cards \<and>
              ((\<not> isinstance_list cards \<and> \<not> isinstance_str cards \<and> \<not> isinstance_dict cards
                  \<and> e = TypeError)
             \<or> ((isinstance_list cards \<or> isinstance_str cards \<or> isinstance_dict cards)
                  \<and> usage resp = None \<and> e = AttributeError)))))"
proof (cases "py_getitem decoded ''cards''")
  case (Inl x)
  from Inl py_getitem_Inl_iff [of decoded "''cards''" x]
  have "(\<not> isinstance_dict decoded \<and> x = TypeError)
        \<or> (\<exists>d. decoded = PDict d \<and> map_of d ''cards'' = None \<and> x = KeyError ''cards'')"
    by simp
  with create_flashcard_decoded [OF c ch j] Inl show ?thesis by auto
next
  case (Inr cards)
  note g = this
  with py_getitem_Inr_iff [of decoded "''cards''" cards]
  obtain d where d: "decoded = PDict d" "map_of d ''cards'' = Some cards" by auto
  show ?thesis
  proof (cases "py_len cards")
    case (Inl x)
    with py_len_Inl_iff [of cards x]
    have n: "\<not> isinstance_list cards" "\<not> isinstance_str cards" "\<not> isinstance_dict cards"
      "x = TypeError" by auto
    from create_flashcard_decoded [OF c ch j] g Inl d n show ?thesis by auto
  next
    case (Inr n)
    with py_len_Inr_iff [of cards]
    have l: "isinstance_list cards \<or> isinstance_str cards \<or> isinstance_dict cards" by auto
    from create_flashcard_decoded [OF c ch j] g Inr d l show ?thesis
      by (cases "usage resp") auto
  qed
qed


section \<open>Properties of the file system operations\<close>

lemmas path_defs = startswith_def endswith_def path_join_def normpath_def norm_step_def
  abspath_def abs_comps_def relpath_def dirname_def basename_def path_split_def

lemmas fs_defs = isdir_def isfile_def step_comp_def start_dir_def resolve_def path_exists_def
  path_isdir_def scandir_def rstrip_sep_def mkdir_def makedirs_split_def mkdir_exist_ok_def
  makedirs.simps read_file_def write_file_def

lemma split_sep_nonempty: "split_sep xs \<noteq> []"
  by (induction xs) (auto split: list.splits)

lemma split_sep_append_sep:
  "split_sep (xs @ CHR ''/'' # ys) = split_sep xs @ split_sep ys"
proof (induction xs)
  case Nil
  show ?case by simp
next
  case (Cons c xs)
  obtain x rest where s: "split_sep xs = x # rest"
    using split_sep_nonempty [of xs] by (cases "split_sep xs") auto
  show ?case using Cons.IH s by simp
qed

lemma split_sep_slashes: "split_sep (replicate k CHR ''/'') = replicate (Suc k) []"
  by (induction k) simp_all

lemma split_sep_snoc_slashes:
  "split_sep (xs @ replicate k CHR ''/'') = split_sep xs @ replicate k []"
proof (cases k)
  case 0
  then show ?thesis by simp
next
  case (Suc j)
  have "split_sep (xs @ CHR ''/'' # replicate j CHR ''/'')
          = split_sep xs @ split_sep (replicate j CHR ''/'')"
    by (rule split_sep_append_sep)
  with Suc show ?thesis by (simp add: split_sep_slashes replicate_append_same)
qed

lemma split_sep_no_sep: "CHR ''/'' \<notin> set t \<Longrightarrow> split_sep t = [t]"
  by (induction t) auto

lemma rstrip_sep_decomp: "\<exists>k. p = rstrip_sep p @ replicate k CHR ''/''"
proof -
  let ?Q = "\<lambda>c. c = CHR ''/''"
  have "rev p = takeWhile ?Q (rev p) @ dropWhile ?Q (rev p)" by simp
  then have "p = rev (dropWhile ?Q (rev p)) @ rev (takeWhile ?Q (rev p))"
    by (metis rev_append rev_rev_ident)
  moreover have "takeWhile ?Q (rev p) = replicate (length (takeWhile ?Q (rev p))) CHR ''/''"
    by (rule replicate_length_same [symmetric]) (auto dest: set_takeWhileD)
  ultimately have "p = rstrip_sep p @ rev (replicate (length (takeWhile ?Q (rev p))) CHR ''/'')"
    by (simp add: rstrip_sep_def)
  then show ?thesis by (metis rev_replicate)
qed

lemma walk_comps_append:
  "walk_comps w cur (xs @ ys) =
     (case walk_comps w cur xs of Inl e \<Rightarrow> Inl e | Inr p \<Rightarrow> walk_comps w p ys)"
  by (induction xs arbitrary: cur) simp_all

lemma walk_comps_empties:
  "walk_comps w cur (replicate k []) = Inr p \<Longrightarrow> p = cur"
  by (induction k) (simp_all add: step_comp_def split: if_splits)

lemma walk_comps_empties_dir:
  "isdir w cur \<Longrightarrow> walk_comps w cur (replicate k []) = Inr cur"
  by (induction k) (simp_all add: step_comp_def)

lemma walk_comps_snoc:
  assumes "walk_comps w cur (xs @ [y]) = Inr p"
  shows "\<exists>d. walk_comps w cur xs = Inr d \<and> isdir w d"
proof (cases "walk_comps w cur xs")
  case (Inl e)
  with assms show ?thesis by (simp add: walk_comps_append)
next
  case (Inr d)
  with assms show ?thesis by (simp add: walk_comps_append split: if_splits)
qed

lemma start_dir_prefix: "r \<noteq> [] \<Longrightarrow> start_dir cwd (r @ s) = start_dir cwd r"
  by (cases r) (simp_all add: start_dir_def startswith_def)

lemma resolve_walk:
  "path \<noteq> [] \<Longrightarrow> resolve cwd w path = walk_comps w (start_dir cwd path) (split_sep path)"
  by (simp add: resolve_def)

text \<open>Slashes at the end of a path do not change where it leads, when that is a directory.\<close>

lemma resolve_rstrip:
  assumes ne: "rstrip_sep p \<noteq> []"
  shows "(resolve cwd w p = Inr d \<and> isdir w d)
           \<longleftrightarrow> (resolve cwd w (rstrip_sep p) = Inr d \<and> isdir w d)"
proof -
  obtain k where k: "p = rstrip_sep p @ replicate k CHR ''/''"
    using rstrip_sep_decomp by blast
  let ?r = "rstrip_sep p"
  from ne k have pne: "p \<noteq> []" by auto
  have st: "start_dir cwd p = start_dir cwd ?r"
    using start_dir_prefix [OF ne, of cwd "replicate k CHR ''/''"] k by simp
  have sp: "split_sep p = split_sep ?r @ replicate k []"
    using split_sep_snoc_slashes [of ?r k] k by simp
  show ?thesis
  proof
    assume a: "resolve cwd w p = Inr d \<and> isdir w d"
    then have "walk_comps w (start_dir cwd ?r) (split_sep ?r @ replicate k []) = Inr d"
      using pne st sp by (simp add: resolve_walk)
    then obtain d' where d': "walk_comps w (start_dir cwd ?r) (split_sep ?r) = Inr d'"
      "walk_comps w d' (replicate k []) = Inr d"
      by (cases "walk_comps w (start_dir cwd ?r) (split_sep ?r)")
         (simp_all add: walk_comps_append)
    from walk_comps_empties [OF d'(2)] d'(1) a ne
    show "resolve cwd w ?r = Inr d \<and> isdir w d" by (simp add: resolve_walk)
  next
    assume a: "resolve cwd w ?r = Inr d \<and> isdir w d"
    then have "walk_comps w (start_dir cwd ?r) (split_sep ?r) = Inr d"
      using ne by (simp add: resolve_walk)
    then have "walk_comps w (start_dir cwd p) (split_sep p) = Inr d"
      using a st sp by (simp add: walk_comps_append walk_comps_empties_dir)
    with a pne show "resolve cwd w p = Inr d \<and> isdir w d" by (simp add: resolve_walk)
  qed
qed

lemma resolve_strip:
  "(resolve cwd w p = Inr d \<and> isdir w d)
     \<longleftrightarrow> (resolve cwd w (if rstrip_sep p = [] then p else rstrip_sep p) = Inr d \<and> isdir w d)"
  using resolve_rstrip [of p cwd w d] by simp

text \<open>The part of a path up to its last slash.\<close>

lemma head_decomp:
  assumes "CHR ''/'' \<in> set p"
  shows "\<exists>h. rev (dropWhile (\<lambda>c. c \<noteq> CHR ''/'') (rev p)) = h @ ''/''
            \<and> p = h @ CHR ''/'' # basename p \<and> CHR ''/'' \<notin> set (basename p)"
proof -
  let ?P = "\<lambda>c. c \<noteq> CHR ''/''"
  let ?d = "dropWhile ?P (rev p)"
  from assms have dne: "?d \<noteq> []" by (simp add: dropWhile_eq_Nil_conv)
  then have "\<not> ?P (hd ?d)" by (rule hd_dropWhile)
  with dne obtain rest where d: "?d = CHR ''/'' # rest" by (cases ?d) auto
  have "rev p = takeWhile ?P (rev p) @ ?d" by simp
  then have "p = rev ?d @ rev (takeWhile ?P (rev p))" by (metis rev_append rev_rev_ident)
  with d have p: "p = rev rest @ CHR ''/'' # basename p" by (simp add: basename_def)
  have "CHR ''/'' \<notin> set (basename p)"
    by (auto simp: basename_def dest: set_takeWhileD)
  with d p show ?thesis by auto
qed

lemma dirname_no_sep: "CHR ''/'' \<notin> set p \<Longrightarrow> dirname p = []"
  by (auto simp: dirname_def dropWhile_eq_Nil_conv)

lemma rstrip_sep_Nil_iff: "rstrip_sep h = [] \<longleftrightarrow> h = replicate (length h) CHR ''/''"
proof
  assume "rstrip_sep h = []"
  with rstrip_sep_decomp [of h] obtain k where "h = replicate k CHR ''/''" by auto
  then show "h = replicate (length h) CHR ''/''" by (metis length_replicate)
next
  assume "h = replicate (length h) CHR ''/''"
  then have "\<forall>c \<in> set (rev h). c = CHR ''/''"
    by (metis in_set_replicate set_rev)
  then show "rstrip_sep h = []" by (simp add: rstrip_sep_def dropWhile_eq_Nil_conv)
qed

lemma dirname_alt:
  "dirname p = (let h = rev (dropWhile (\<lambda>c. c \<noteq> CHR ''/'') (rev p))
                in if h \<noteq> [] \<and> h \<noteq> replicate (length h) CHR ''/'' then rstrip_sep h else h)"
  by (simp only: dirname_def rstrip_sep_def)

lemma rstrip_sep_Nil: "rstrip_sep [] = []"
  by (simp add: rstrip_sep_def)

lemma dirname_strip:
  "dirname p = (let h = rev (dropWhile (\<lambda>c. c \<noteq> CHR ''/'') (rev p))
                in if rstrip_sep h = [] then h else rstrip_sep h)"
proof -
  define h where "h = rev (dropWhile (\<lambda>c. c \<noteq> CHR ''/'') (rev p))"
  have d: "dirname p = (if h \<noteq> [] \<and> h \<noteq> replicate (length h) CHR ''/''
                        then rstrip_sep h else h)"
    using dirname_alt [of p] by (simp only: Let_def h_def)
  have "dirname p = (if rstrip_sep h = [] then h else rstrip_sep h)"
  proof (cases "rstrip_sep h = []")
    case True
    then have "h = replicate (length h) CHR ''/''"
      using rstrip_sep_Nil_iff [of h] by blast
    with True d show ?thesis by simp
  next
    case False
    then have a: "h \<noteq> replicate (length h) CHR ''/''"
      using rstrip_sep_Nil_iff [of h] by blast
    from False have b: "h \<noteq> []" using rstrip_sep_Nil by blast
    from a b False d show ?thesis by simp
  qed
  then show ?thesis by (simp only: Let_def h_def)
qed

text \<open>A path that resolves and holds a slash has a directory as its \<open>dirname\<close>.\<close>

lemma resolve_dirname:
  assumes r: "resolve cwd w p = Inr q" and s: "CHR ''/'' \<in> set p"
  shows "\<exists>d. resolve cwd w (dirname p) = Inr d \<and> isdir w d"
proof -
  from head_decomp [OF s] obtain h where
    h: "rev (dropWhile (\<lambda>c. c \<noteq> CHR ''/'') (rev p)) = h @ ''/''"
    and p: "p = h @ CHR ''/'' # basename p" and t: "CHR ''/'' \<notin> set (basename p)" by blast
  let ?h0 = "h @ ''/''"
  from s have pne: "p \<noteq> []" by auto
  have sp: "split_sep p = split_sep h @ [basename p]"
    using split_sep_append_sep [of h "basename p"] p split_sep_no_sep [OF t] by simp
  from r pne have "walk_comps w (start_dir cwd p) (split_sep h @ [basename p]) = Inr q"
    by (simp add: resolve_walk sp)
  from walk_comps_snoc [OF this] obtain d where
    d: "walk_comps w (start_dir cwd p) (split_sep h) = Inr d" "isdir w d" by blast
  have st: "start_dir cwd p = start_dir cwd ?h0"
    using start_dir_prefix [of ?h0 cwd "basename p"] p by simp
  have "split_sep ?h0 = split_sep h @ [[]]"
    using split_sep_append_sep [of h "[]"] by simp
  with d st have "resolve cwd w ?h0 = Inr d \<and> isdir w d"
    by (simp add: resolve_walk walk_comps_append step_comp_def)
  then have "resolve cwd w (if rstrip_sep ?h0 = [] then ?h0 else rstrip_sep ?h0) = Inr d
               \<and> isdir w d"
    using resolve_strip [of cwd w ?h0 d] by blast
  moreover have "dirname p = (if rstrip_sep ?h0 = [] then ?h0 else rstrip_sep ?h0)"
    using dirname_strip [of p] h by (simp add: Let_def)
  ultimately show ?thesis by auto
qed

lemma only_dirs_added_refl: "only_dirs_added w w"
  by (simp add: only_dirs_added_def)

lemma only_dirs_added_trans:
  "only_dirs_added w w1 \<Longrightarrow> only_dirs_added w1 w2 \<Longrightarrow> only_dirs_added w w2"
  by (auto simp: only_dirs_added_def)

lemma walk_comps_mono:
  "only_dirs_added w w' \<Longrightarrow> walk_comps w cur cs = Inr p \<Longrightarrow> walk_comps w' cur cs = Inr p"
proof (induction cs arbitrary: cur)
  case Nil
  then show ?case by simp
next
  case (Cons c cs)
  from Cons.prems(2) have d: "isdir w cur" by (simp split: if_splits)
  with Cons.prems(1) have d': "isdir w' cur" by (auto simp: isdir_def only_dirs_added_def)
  from Cons.prems(2) d have "walk_comps w (step_comp cur c) cs = Inr p" by simp
  from Cons.IH [OF Cons.prems(1) this] d' show ?case by simp
qed

lemma walk_comps_same:
  "fs_dirs w' = fs_dirs w \<Longrightarrow> fs_files w' = fs_files w \<Longrightarrow>
   walk_comps w' cur cs = walk_comps w cur cs"
  by (induction cs arbitrary: cur) (simp_all add: isdir_def isfile_def)

lemma resolve_same:
  "fs_dirs w' = fs_dirs w \<Longrightarrow> fs_files w' = fs_files w \<Longrightarrow> resolve cwd w' p = resolve cwd w p"
  using walk_comps_same [of w' w] by (simp add: resolve_def)

lemma resolve_mono:
  assumes a: "only_dirs_added w w'" and r: "resolve cwd w p = Inr q"
  shows "resolve cwd w' p = Inr q"
proof -
  from r have ne: "p \<noteq> []" by (auto simp: resolve_def)
  with r have "walk_comps w (start_dir cwd p) (split_sep p) = Inr q" by (simp add: resolve_walk)
  from walk_comps_mono [OF a this] ne show ?thesis by (simp add: resolve_walk)
qed

lemma path_exists_mono:
  assumes "only_dirs_added w w'" and "path_exists cwd w p"
  shows "path_exists cwd w' p"
proof -
  from assms(2) obtain q where q: "resolve cwd w p = Inr q" "isdir w q \<or> isfile w q"
    by (cases "resolve cwd w p") (simp_all add: path_exists_def)
  from resolve_mono [OF assms(1) q(1)] q(2) assms(1) show ?thesis
    by (auto simp: path_exists_def isdir_def isfile_def only_dirs_added_def)
qed

lemma mkdir_frame: "only_dirs_added w (snd (mkdir cwd p w))"
  by (auto simp: mkdir_def only_dirs_added_def split: sum.splits)

lemma mkdir_exist_ok_frame: "only_dirs_added w (snd (mkdir_exist_ok cwd name w))"
proof -
  obtain r w1 where m: "mkdir cwd name w = (r, w1)" by (cases "mkdir cwd name w")
  with mkdir_frame [of w cwd name] have "only_dirs_added w w1" by simp
  with m show ?thesis by (cases r) (simp_all add: mkdir_exist_ok_def)
qed

lemma makedirs_else:
  assumes c: "\<not> (fst (makedirs_split name) \<noteq> [] \<and> snd (makedirs_split name) \<noteq> []
               \<and> \<not> path_exists cwd w (fst (makedirs_split name)))"
  shows "makedirs cwd name w = mkdir_exist_ok cwd name w"
  by (subst makedirs.simps) (simp only: c if_False)

lemma makedirs_then:
  assumes c: "fst (makedirs_split name) \<noteq> [] \<and> snd (makedirs_split name) \<noteq> []
               \<and> \<not> path_exists cwd w (fst (makedirs_split name))"
    and m: "makedirs cwd (fst (makedirs_split name)) w = (r, w1)"
  shows "makedirs cwd name w =
        (case r of
           Inl e \<Rightarrow>
             if e \<noteq> FileExistsError then (Inl e, w1)
             else if snd (makedirs_split name) = ''.'' then (Inr (), w1)
             else mkdir_exist_ok cwd name w1
         | Inr u \<Rightarrow>
             if snd (makedirs_split name) = ''.'' then (Inr (), w1)
             else mkdir_exist_ok cwd name w1)"
  by (subst makedirs.simps) (simp only: c m if_True prod.case simp_thms)

lemma makedirs_frame: "only_dirs_added w (snd (makedirs cwd name w))"
proof (induction cwd name w rule: makedirs.induct)
  case (1 cwd name w)
  let ?h = "fst (makedirs_split name)"
  let ?t = "snd (makedirs_split name)"
  show ?case
  proof (cases "?h \<noteq> [] \<and> ?t \<noteq> [] \<and> \<not> path_exists cwd w ?h")
    case False
    then have "makedirs cwd name w = mkdir_exist_ok cwd name w"
      by (rule makedirs_else)
    with mkdir_exist_ok_frame [of w cwd name] show ?thesis by simp
  next
    case True
    obtain r w1 where m: "makedirs cwd ?h w = (r, w1)" by (cases "makedirs cwd ?h w")
    from "1.IH" True m have k: "only_dirs_added w w1" by simp
    have k2: "only_dirs_added w (snd (mkdir_exist_ok cwd name w1))"
      using only_dirs_added_trans [OF k mkdir_exist_ok_frame] .
    have e: "makedirs cwd name w =
        (case r of
           Inl e \<Rightarrow>
             if e \<noteq> FileExistsError then (Inl e, w1)
             else if ?t = ''.'' then (Inr (), w1)
             else mkdir_exist_ok cwd name w1
         | Inr u \<Rightarrow>
             if ?t = ''.'' then (Inr (), w1) else mkdir_exist_ok cwd name w1)"
      using True m by (rule makedirs_then)
    show ?thesis
    proof (cases r)
      case (Inl x)
      with e k k2 show ?thesis by (simp split: if_splits)
    next
      case (Inr u)
      with e k k2 show ?thesis by (simp split: if_splits)
    qed
  qed
qed

lemma basename_no_sep:
  assumes "CHR ''/'' \<notin> set p"
  shows "basename p = p"
proof -
  from assms have "\<forall>x \<in> set (rev p). x \<noteq> CHR ''/''" by auto
  then have "takeWhile (\<lambda>c. c \<noteq> CHR ''/'') (rev p) = rev p"
    by (simp only: takeWhile_eq_all_conv)
  then show ?thesis by (simp only: basename_def rev_rev_ident)
qed

lemma resolve_Inr_nonempty: "resolve cwd w p = Inr q \<Longrightarrow> p \<noteq> []"
  by (auto simp: resolve_def)

text \<open>On a path that is a directory, \<open>makedirs\<close> changes nothing.\<close>

lemma makedirs_noop:
  assumes pd: "path_isdir cwd w name"
  shows "makedirs cwd name w = (Inr (), w)"
proof -
  from pd obtain d where d: "resolve cwd w name = Inr d" "isdir w d"
    by (cases "resolve cwd w name") (simp_all add: path_isdir_def)
  let ?h = "fst (makedirs_split name)"
  let ?t = "snd (makedirs_split name)"
  have ex: "path_exists cwd w ?h" if h: "?h \<noteq> []"
  proof (cases "basename name = []")
    case False
    then have hd: "?h = dirname name" by (simp add: makedirs_split_def path_split_def)
    with h dirname_no_sep [of name] have "CHR ''/'' \<in> set name" by auto
    from resolve_dirname [OF d(1) this] hd show ?thesis by (auto simp: path_exists_def)
  next
    case True
    then have hd: "?h = dirname (dirname name)"
      by (simp add: makedirs_split_def path_split_def)
    from d(1) have "name \<noteq> []" by (rule resolve_Inr_nonempty)
    with True basename_no_sep [of name] have "CHR ''/'' \<in> set name" by auto
    from resolve_dirname [OF d(1) this] obtain d1 where
      d1: "resolve cwd w (dirname name) = Inr d1" by blast
    from h hd dirname_no_sep [of "dirname name"] have "CHR ''/'' \<in> set (dirname name)" by auto
    from resolve_dirname [OF d1 this] hd show ?thesis by (auto simp: path_exists_def)
  qed
  then have m: "makedirs cwd name w = mkdir_exist_ok cwd name w"
    by (intro makedirs_else) blast
  from d resolve_strip [of cwd w name d]
  have "resolve cwd w (if rstrip_sep name = [] then name else rstrip_sep name) = Inr d" by blast
  with d(2) have "mkdir cwd name w = (Inl FileExistsError, w)" by (simp add: mkdir_def)
  with pd m show ?thesis by (simp add: mkdir_exist_ok_def)
qed

lemma makedirs_existing:
  assumes "path_exists cwd w out" and "CHR ''/'' \<in> set out"
  shows "makedirs cwd (dirname out) w = (Inr (), w)"
proof -
  from assms(1) obtain q where "resolve cwd w out = Inr q"
    by (cases "resolve cwd w out") (simp_all add: path_exists_def)
  from resolve_dirname [OF this assms(2)] have "path_isdir cwd w (dirname out)"
    by (auto simp: path_isdir_def)
  then show ?thesis by (rule makedirs_noop)
qed

lemma mkdir_exist_ok_isdir:
  assumes "mkdir_exist_ok cwd name w = (Inr u, w')"
  shows "path_isdir cwd w' name"
proof -
  let ?s = "if rstrip_sep name = [] then name else rstrip_sep name"
  show ?thesis
  proof (cases "resolve cwd w ?s")
    case (Inl e)
    then have "mkdir cwd name w = (Inl e, w)" by (simp add: mkdir_def)
    with assms show ?thesis by (simp add: mkdir_exist_ok_def split: if_splits)
  next
    case (Inr p)
    show ?thesis
    proof (cases "isdir w p \<or> isfile w p")
      case True
      with Inr have "mkdir cwd name w = (Inl FileExistsError, w)" by (simp add: mkdir_def)
      with assms show ?thesis by (simp add: mkdir_exist_ok_def split: if_splits)
    next
      case False
      let ?w1 = "w\<lparr>fs_dirs := fs_dirs w @ [p]\<rparr>"
      from False Inr have mk: "mkdir cwd name w = (Inr (), ?w1)" by (simp add: mkdir_def)
      with assms have w': "w' = ?w1" by (simp add: mkdir_exist_ok_def)
      have "only_dirs_added w ?w1" by (auto simp: only_dirs_added_def)
      from resolve_mono [OF this Inr] have "resolve cwd ?w1 ?s = Inr p" .
      moreover have "isdir ?w1 p" by (simp add: isdir_def)
      ultimately have "resolve cwd ?w1 name = Inr p \<and> isdir ?w1 p"
        using resolve_strip [of cwd ?w1 name p] by blast
      with w' show ?thesis by (simp add: path_isdir_def)
    qed
  qed
qed

text \<open>After \<open>makedirs\<close> has returned, its argument is a directory (unless its last
  component is \<^verbatim>\<open>.\<close>, where the library returns without looking).\<close>

lemma makedirs_isdir:
  assumes m: "makedirs cwd name w = (Inr u, w')" and t: "snd (makedirs_split name) \<noteq> ''.''"
  shows "path_isdir cwd w' name"
proof -
  let ?h = "fst (makedirs_split name)"
  let ?t = "snd (makedirs_split name)"
  have "\<exists>w1. mkdir_exist_ok cwd name w1 = (Inr u, w')"
  proof (cases "?h \<noteq> [] \<and> ?t \<noteq> [] \<and> \<not> path_exists cwd w ?h")
    case False
    then have "makedirs cwd name w = mkdir_exist_ok cwd name w"
      by (rule makedirs_else)
    with m show ?thesis by auto
  next
    case True
    obtain r w1 where r: "makedirs cwd ?h w = (r, w1)" by (cases "makedirs cwd ?h w")
    have "makedirs cwd name w = (case r of
              Inl e \<Rightarrow> if e \<noteq> FileExistsError then (Inl e, w1) else mkdir_exist_ok cwd name w1
            | Inr u \<Rightarrow> mkdir_exist_ok cwd name w1)"
      using makedirs_then [OF True r] t by (simp split: sum.splits)
    with m show ?thesis by (cases r) (auto split: if_splits)
  qed
  then show ?thesis using mkdir_exist_ok_isdir by blast
qed

text \<open>A path joined to a non-empty path holds a slash; so does every output path of a
  generator set up by \<open>init\<close>, the working directory being non-empty.\<close>

lemma path_join_has_sep:
  assumes "a \<noteq> []"
  shows "CHR ''/'' \<in> set (path_join a b)"
proof (cases "startswith b ''/''")
  case True
  then have "b \<noteq> [] \<and> hd b = CHR ''/''"
    by (cases b) (simp_all add: startswith_def)
  then have "CHR ''/'' \<in> set b" by (cases b) auto
  with True show ?thesis by (simp add: path_join_def)
next
  case False
  note nb = this
  show ?thesis
  proof (cases "endswith a ''/''")
    case True
    then have "drop (length a - 1) a = ''/''" by (simp add: endswith_def)
    then have "CHR ''/'' \<in> set (drop (length a - 1) a)" by simp
    then have "CHR ''/'' \<in> set a" by (rule in_set_dropD)
    with nb True show ?thesis by (simp add: path_join_def)
  next
    case False
    with nb assms show ?thesis by (simp add: path_join_def)
  qed
qed

lemma init_output_has_sep:
  assumes "getcwd E \<noteq> []"
  shows "CHR ''/'' \<in> set (path_join (output_dir (init E input_dir_arg output_dir_arg)) rel)"
proof -
  have "\<exists>x. x \<noteq> [] \<and> output_dir (init E input_dir_arg output_dir_arg) = path_join x ''flashcards''"
    using assms by (auto simp: init_def Let_def split: option.splits)
  then obtain x where x: "x \<noteq> []"
    "output_dir (init E input_dir_arg output_dir_arg) = path_join x ''flashcards''" by blast
  from path_join_has_sep [OF x(1), of "''flashcards''"] x(2)
  have "output_dir (init E input_dir_arg output_dir_arg) \<noteq> []" by auto
  then show ?thesis by (rule path_join_has_sep)
qed

lemma write_file_frame:
  "fs_dirs (snd (write_file cwd w p c)) = fs_dirs w
   \<and> (\<forall>q. resolve cwd w p \<noteq> Inr q \<longrightarrow>
         map_of (fs_files (snd (write_file cwd w p c))) q = map_of (fs_files w) q)"
  by (cases "resolve cwd w p") (auto simp: write_file_def update_conv')

lemma process_file_frame:
  "fs_dirs (snd (process_file E inp out pr w)) = fs_dirs w
   \<and> (\<forall>q. resolve (getcwd E) w out \<noteq> Inr q \<longrightarrow>
         map_of (fs_files (snd (process_file E inp out pr w))) q = map_of (fs_files w) q)"
proof -
  have r: "resolve (getcwd E) (w\<lparr>generated := g\<rparr>) out = resolve (getcwd E) w out" for g
    by (rule resolve_same) simp_all
  have wf: "fs_dirs (snd (write_file (getcwd E) (w\<lparr>generated := g\<rparr>) out c)) = fs_dirs w
     \<and> (\<forall>q. resolve (getcwd E) w out \<noteq> Inr q \<longrightarrow>
         map_of (fs_files (snd (write_file (getcwd E) (w\<lparr>generated := g\<rparr>) out c))) q
           = map_of (fs_files w) q)" for g c
    using write_file_frame [of "getcwd E" "w\<lparr>generated := g\<rparr>" out c] r [of g] by simp
  show ?thesis
    unfolding process_file_def
    using wf by (simp split: sum.split)
qed

lemma process_file_out_missing:
  assumes ne: "\<not> path_exists (getcwd E) w out" and p: "map_of (fs_files w) p = Some c"
  shows "map_of (fs_files (snd (process_file E inp out pr w))) p = Some c"
proof -
  have "resolve (getcwd E) w out \<noteq> Inr p"
  proof
    assume "resolve (getcwd E) w out = Inr p"
    with p have "path_exists (getcwd E) w out" by (simp add: path_exists_def isfile_def)
    with ne show False by simp
  qed
  with process_file_frame [of E inp out pr w] p show ?thesis by simp
qed

lemma files_kept_refl: "files_kept w w"
  by (simp add: files_kept_def)

lemma files_kept_trans: "files_kept w w1 \<Longrightarrow> files_kept w1 w2 \<Longrightarrow> files_kept w w2"
  by (simp add: files_kept_def)

lemma files_kept_same: "fs_files w' = fs_files w \<Longrightarrow> files_kept w w'"
  by (simp add: files_kept_def)

lemma process_files_file_skip:
  assumes md: "endswith fname ''.md''"
    and rel: "relpath (getcwd E) (path_join root fname) (input_dir self) = Inr rel"
    and ex: "path_exists (getcwd E) w (path_join (output_dir self) rel)"
  shows "process_files_file E self False root fname w
           = makedirs (getcwd E) (dirname (path_join (output_dir self) rel)) w"
proof -
  let ?m = "makedirs (getcwd E) (dirname (path_join (output_dir self) rel)) w"
  obtain r w' where m: "?m = (r, w')" by (cases ?m)
  from makedirs_frame [of w "getcwd E" "dirname (path_join (output_dir self) rel)"] m
  have "only_dirs_added w w'" by simp
  from path_exists_mono [OF this ex]
  have "path_exists (getcwd E) w' (path_join (output_dir self) rel)" .
  with md rel m show ?thesis
    by (cases r) (simp_all add: process_files_file_def)
qed

lemma process_files_file_kept:
  "files_kept w (snd (process_files_file E self False root fname w))"
proof (cases "endswith fname ''.md''")
  case False
  then show ?thesis by (simp add: process_files_file_def files_kept_refl)
next
  case True
  note md = this
  show ?thesis
  proof (cases "relpath (getcwd E) (path_join root fname) (input_dir self)")
    case (Inl e)
    with md show ?thesis by (simp add: process_files_file_def files_kept_refl)
  next
    case (Inr rel)
    let ?out = "path_join (output_dir self) rel"
    let ?m = "makedirs (getcwd E) (dirname ?out) w"
    obtain r w1 where m: "?m = (r, w1)" by (cases ?m)
    from makedirs_frame [of w "getcwd E" "dirname ?out"] m
    have f1: "fs_files w1 = fs_files w" by (simp add: only_dirs_added_def)
    then have k1: "files_kept w w1" by (rule files_kept_same)
    show ?thesis
    proof (cases r)
      case (Inl e)
      with md Inr m k1 show ?thesis by (simp add: process_files_file_def)
    next
      case (Inr u)
      note r = this
      show ?thesis
      proof (cases "path_exists (getcwd E) w1 ?out")
        case True
        with md \<open>relpath _ _ _ = Inr rel\<close> m r k1 show ?thesis
          by (simp add: process_files_file_def)
      next
        case False
        have "files_kept w1 (snd (process_file E (path_join root fname) ?out False w1))"
          using process_file_out_missing [OF False] by (simp add: files_kept_def)
        with k1 have "files_kept w (snd (process_file E (path_join root fname) ?out False w1))"
          by (rule files_kept_trans)
        with md \<open>relpath _ _ _ = Inr rel\<close> m r False show ?thesis
          by (simp add: process_files_file_def)
      qed
    qed
  qed
qed

lemma process_files_loop_kept:
  "files_kept w (snd (process_files_loop E self False root files w))"
proof (induction files arbitrary: w)
  case Nil
  show ?case by (simp add: files_kept_refl)
next
  case (Cons f fs)
  obtain r w1 where s: "process_files_file E self False root f w = (r, w1)"
    by (cases "process_files_file E self False root f w")
  from process_files_file_kept [of w E self root f] s have k: "files_kept w w1" by simp
  show ?case
  proof (cases r)
    case (Inl e)
    with s k show ?thesis by simp
  next
    case (Inr u)
    from files_kept_trans [OF k Cons.IH [of w1]] Inr s show ?thesis by simp
  qed
qed

lemma process_files_root_kept:
  "files_kept w (snd (process_files_root E self False root files w))"
  by (simp add: process_files_root_def files_kept_refl process_files_loop_kept)

lemma process_files_walk_kept:
  "process_files_walk fuel E self False stack w = Some (r, w') \<Longrightarrow> files_kept w w'"
proof (induction fuel arbitrary: stack w)
  case 0
  then show ?case by (cases stack) (simp_all add: files_kept_refl)
next
  case (Suc fuel)
  show ?case
  proof (cases stack)
    case Nil
    with Suc.prems show ?thesis by (simp add: files_kept_refl)
  next
    case (Cons dir rest)
    note st = this
    show ?thesis
    proof (cases "scandir (getcwd E) w dir")
      case None
      with Suc.prems st have "process_files_walk fuel E self False rest w = Some (r, w')"
        by simp
      then show ?thesis by (rule Suc.IH)
    next
      case (Some l)
      obtain dirs files where l: "l = (dirs, files)" by (cases l)
      obtain r1 w1 where b: "process_files_root E self False dir files w = (r1, w1)"
        by (cases "process_files_root E self False dir files w")
      from process_files_root_kept [of w E self dir files] b have k: "files_kept w w1" by simp
      show ?thesis
      proof (cases r1)
        case (Inl e)
        with Suc.prems st Some l b k show ?thesis by simp
      next
        case (Inr u)
        with Suc.prems st Some l b
        have "process_files_walk fuel E self False (map (path_join dir) dirs @ rest) w1
                = Some (r, w')" by simp
        from files_kept_trans [OF k Suc.IH [OF this]] show ?thesis .
      qed
    qed
  qed
qed


section \<open>The claims\<close>

text \<open>
  C1. The specification: a visited directory is skipped if and only if it is a sub-path of
  the output root, so every note whose directory is not below the output root is
  processed. The source tests \<^verbatim>\<open>root.startswith(self.output_dir)\<close> on the text of the
  path. With input directory \<^verbatim>\<open>/notes\<close> and the default output directory
  \<^verbatim>\<open>/notes/flashcards\<close>, the directory \<^verbatim>\<open>/notes/flashcards2\<close> is not a sub-path of the
  output directory, yet its body is skipped: the run, with either value of
  \<^verbatim>\<open>overwrite_files\<close>, returns without calling the generator for
  \<^verbatim>\<open>/notes/flashcards2/x.md\<close> and without writing anything.
\<close>

theorem process_files_skips_sibling_sharing_name_prefix:
  "\<not> spec_is_subpath (getcwd E) ''/notes/flashcards2''
        (output_dir (init E (Some ''/notes'') None))
   \<and> process_files_root E (init E (Some ''/notes'') None) overwrite_files
        ''/notes/flashcards2'' [''x.md'']
        \<lparr>fs_dirs = [[''notes''], [''notes'', ''flashcards2'']],
         fs_files = [([''notes'', ''flashcards2'', ''x.md''], x)],
         generated = [], stdout = []\<rparr>
       = (Inr (),
          \<lparr>fs_dirs = [[''notes''], [''notes'', ''flashcards2'']],
           fs_files = [([''notes'', ''flashcards2'', ''x.md''], x)],
           generated = [], stdout = []\<rparr>)
   \<and> process_files (Suc (Suc k)) E (init E (Some ''/notes'') None) overwrite_files
        \<lparr>fs_dirs = [[''notes''], [''notes'', ''flashcards2'']],
         fs_files = [([''notes'', ''flashcards2'', ''x.md''], x)],
         generated = [], stdout = []\<rparr>
       = Some (Inr (),
          \<lparr>fs_dirs = [[''notes''], [''notes'', ''flashcards2'']],
           fs_files = [([''notes'', ''flashcards2'', ''x.md''], x)],
           generated = [], stdout = []\<rparr>)"
  by (simp add: spec_is_subpath_def process_files_def init_def process_files_root_def
        path_defs fs_defs)

text \<open>
  C2. For a note (a file name ending in \<^verbatim>\<open>.md\<close>) whose output path already exists, with
  \<^verbatim>\<open>overwrite_files\<close> false, the loop body does nothing but the \<^verbatim>\<open>os.makedirs\<close> call: the
  generator is not called and no file changes. Over a whole run with \<^verbatim>\<open>overwrite_files\<close>
  false, every file that existed before the run has the same contents after it. In the
  tree \<^verbatim>\<open>{a.md, sub/b.md, flashcards/old.md}\<close> under \<^verbatim>\<open>/notes\<close>, with a generator that
  succeeds on both notes, the run calls the generator exactly twice, for \<^verbatim>\<open>a.md\<close> and
  \<^verbatim>\<open>sub/b.md\<close> in that order, writes their two outputs, leaves \<^verbatim>\<open>flashcards/old.md\<close> as it
  was and processes nothing under \<^verbatim>\<open>flashcards/\<close>.
\<close>

theorem process_files_skips_existing_output:
  "(endswith fname ''.md''
      \<and> relpath (getcwd E) (path_join root fname) (input_dir self) = Inr rel
      \<and> path_exists (getcwd E) w (path_join (output_dir self) rel)
    \<longrightarrow> process_files_file E self False root fname w
          = makedirs (getcwd E) (dirname (path_join (output_dir self) rel)) w
        \<and> generated (snd (process_files_file E self False root fname w)) = generated w
        \<and> fs_files (snd (process_files_file E self False root fname w)) = fs_files w)
   \<and> (process_files fuel E self False w = Some (r, w') \<longrightarrow> files_kept w w')
   \<and> (create_flashcard E a = Inr ca \<and> create_flashcard E b = Inr cb
        \<and> format_flashcards (repr_other E) ca ''obsidian_spaced_repetition'' True = Inr ta
        \<and> format_flashcards (repr_other E) cb ''obsidian_spaced_repetition'' True = Inr tb
      \<longrightarrow> process_files (Suc (Suc (Suc (Suc k)))) E (init E (Some ''/notes'') None) False
            \<lparr>fs_dirs = [[''notes''], [''notes'', ''sub''], [''notes'', ''flashcards'']],
             fs_files = [([''notes'', ''a.md''], a), ([''notes'', ''sub'', ''b.md''], b),
                         ([''notes'', ''flashcards'', ''old.md''], old)],
             generated = [], stdout = []\<rparr>
          = Some (Inr (),
            \<lparr>fs_dirs = [[''notes''], [''notes'', ''sub''], [''notes'', ''flashcards''],
                        [''notes'', ''flashcards'', ''sub'']],
             fs_files = [([''notes'', ''a.md''], a), ([''notes'', ''sub'', ''b.md''], b),
                         ([''notes'', ''flashcards'', ''old.md''], old),
                         ([''notes'', ''flashcards'', ''a.md''], ta),
                         ([''notes'', ''flashcards'', ''sub'', ''b.md''], tb)],
             generated = [a, b], stdout = []\<rparr>))"
proof (intro conjI impI)
  assume h: "endswith fname ''.md''
      \<and> relpath (getcwd E) (path_join root fname) (input_dir self) = Inr rel
      \<and> path_exists (getcwd E) w (path_join (output_dir self) rel)"
  then have s: "process_files_file E self False root fname w
          = makedirs (getcwd E) (dirname (path_join (output_dir self) rel)) w"
    by (intro process_files_file_skip) simp_all
  show "process_files_file E self False root fname w
          = makedirs (getcwd E) (dirname (path_join (output_dir self) rel)) w" by (rule s)
  show "generated (snd (process_files_file E self False root fname w)) = generated w"
    using makedirs_frame [of w "getcwd E" "dirname (path_join (output_dir self) rel)"]
    by (simp add: s only_dirs_added_def)
  show "fs_files (snd (process_files_file E self False root fname w)) = fs_files w"
    using makedirs_frame [of w "getcwd E" "dirname (path_join (output_dir self) rel)"]
    by (simp add: s only_dirs_added_def)
next
  assume "process_files fuel E self False w = Some (r, w')"
  then show "files_kept w w'"
    unfolding process_files_def by (rule process_files_walk_kept)
next
  assume g: "create_flashcard E a = Inr ca \<and> create_flashcard E b = Inr cb
        \<and> format_flashcards (repr_other E) ca ''obsidian_spaced_repetition'' True = Inr ta
        \<and> format_flashcards (repr_other E) cb ''obsidian_spaced_repetition'' True = Inr tb"
  then show "process_files (Suc (Suc (Suc (Suc k)))) E (init E (Some ''/notes'') None) False
            \<lparr>fs_dirs = [[''notes''], [''notes'', ''sub''], [''notes'', ''flashcards'']],
             fs_files = [([''notes'', ''a.md''], a), ([''notes'', ''sub'', ''b.md''], b),
                         ([''notes'', ''flashcards'', ''old.md''], old)],
             generated = [], stdout = []\<rparr>
          = Some (Inr (),
            \<lparr>fs_dirs = [[''notes''], [''notes'', ''sub''], [''notes'', ''flashcards''],
                        [''notes'', ''flashcards'', ''sub'']],
             fs_files = [([''notes'', ''a.md''], a), ([''notes'', ''sub'', ''b.md''], b),
                         ([''notes'', ''flashcards'', ''old.md''], old),
                         ([''notes'', ''flashcards'', ''a.md''], ta),
                         ([''notes'', ''flashcards'', ''sub'', ''b.md''], tb)],
             generated = [a, b], stdout = []\<rparr>)"
    by (simp add: process_files_def init_def process_files_root_def process_files_file_def
          process_file_def path_defs fs_defs)
qed

text \<open>
  The theorem at a tree where the output of \<^verbatim>\<open>a.md\<close> exists (the note is skipped, alone
  and in a whole run), and at the tree of the example.
\<close>

theorem process_files_skips_existing_output_witness:
  "process_files_file stub_env notes_generator False ''/notes'' ''a.md''
      \<lparr>fs_dirs = [[''notes''], [''notes'', ''flashcards'']],
       fs_files = [([''notes'', ''a.md''], ''alpha''),
                   ([''notes'', ''flashcards'', ''a.md''], ''kept'')],
       generated = [], stdout = []\<rparr>
     = (Inr (),
      \<lparr>fs_dirs = [[''notes''], [''notes'', ''flashcards'']],
       fs_files = [([''notes'', ''a.md''], ''alpha''),
                   ([''notes'', ''flashcards'', ''a.md''], ''kept'')],
       generated = [], stdout = []\<rparr>)
   \<and> process_files 2 stub_env notes_generator False
      \<lparr>fs_dirs = [[''notes''], [''notes'', ''flashcards'']],
       fs_files = [([''notes'', ''a.md''], ''alpha''),
                   ([''notes'', ''flashcards'', ''a.md''], ''kept'')],
       generated = [], stdout = []\<rparr>
     = Some (Inr (),
      \<lparr>fs_dirs = [[''notes''], [''notes'', ''flashcards'']],
       fs_files = [([''notes'', ''a.md''], ''alpha''),
                   ([''notes'', ''flashcards'', ''a.md''], ''kept'')],
       generated = [], stdout = []\<rparr>)
   \<and> process_files 4 stub_env (init stub_env (Some ''/notes'') None) False
      \<lparr>fs_dirs = [[''notes''], [''notes'', ''sub''], [''notes'', ''flashcards'']],
       fs_files = [([''notes'', ''a.md''], ''alpha''), ([''notes'', ''sub'', ''b.md''], ''beta''),
                   ([''notes'', ''flashcards'', ''old.md''], ''old'')],
       generated = [], stdout = []\<rparr>
     = Some (Inr (),
      \<lparr>fs_dirs = [[''notes''], [''notes'', ''sub''], [''notes'', ''flashcards''],
                  [''notes'', ''flashcards'', ''sub'']],
       fs_files = [([''notes'', ''a.md''], ''alpha''), ([''notes'', ''sub'', ''b.md''], ''beta''),
                   ([''notes'', ''flashcards'', ''old.md''], ''old''),
                   ([''notes'', ''flashcards'', ''a.md''], ''#flashcards\<newline>\<newline>Q\<newline>?\<newline>A\<newline>\<newline>''),
                   ([''notes'', ''flashcards'', ''sub'', ''b.md''],
                    ''#flashcards\<newline>\<newline>Q\<newline>?\<newline>A\<newline>\<newline>'')],
       generated = [''alpha'', ''beta''], stdout = []\<rparr>)"
  using process_files_skips_existing_output
    [where E = stub_env and self = notes_generator and root = "''/notes''" and fname = "''a.md''"
       and rel = "''a.md''" and fuel = 2 and r = "Inr ()"
       and w = "\<lparr>fs_dirs = [[''notes''], [''notes'', ''flashcards'']],
                 fs_files = [([''notes'', ''a.md''], ''alpha''),
                             ([''notes'', ''flashcards'', ''a.md''], ''kept'')],
                 generated = [], stdout = []\<rparr>"
       and w' = "\<lparr>fs_dirs = [[''notes''], [''notes'', ''flashcards'']],
                 fs_files = [([''notes'', ''a.md''], ''alpha''),
                             ([''notes'', ''flashcards'', ''a.md''], ''kept'')],
                 generated = [], stdout = []\<rparr>"
       and a = "''alpha''" and b = "''beta''" and old = "''old''" and k = 0
       and ca = "PList [PDict [(''front'', PStr ''Q''), (''back'', PStr ''A'')]]"
       and cb = "PList [PDict [(''front'', PStr ''Q''), (''back'', PStr ''A'')]]"
       and ta = "''#flashcards\<newline>\<newline>Q\<newline>?\<newline>A\<newline>\<newline>''"
       and tb = "''#flashcards\<newline>\<newline>Q\<newline>?\<newline>A\<newline>\<newline>''"]
  by (simp add: process_files_def init_def process_files_root_def process_files_file_def
        process_file_def create_flashcard_def format_flashcards_def format_card_def
        path_defs fs_defs numeral_eq_Suc)

text \<open>
  C3. The specification: \<^verbatim>\<open>generate\<close> fails when the decoded \<^verbatim>\<open>cards\<close> value fails the
  validator's shape check. The source never calls \<^verbatim>\<open>validate_flashcards\<close>: a reply whose
  \<^verbatim>\<open>cards\<close> value is the list \<^verbatim>\<open>[1]\<close> is rejected by the validator and returned by
  \<^verbatim>\<open>create_flashcard\<close>.
\<close>

theorem create_flashcard_validation_counterexample:
  "validate_flashcards (PList [PInt 1]) = Inl (ValueError ''Each flashcard must be a dict.'')
   \<and> create_flashcard
        \<lparr>repr_other = (\<lambda>v. []),
         chat = (\<lambda>m. Inr \<lparr>choices = [Some ''reply''], usage = Some 12\<rparr>),
         json_loads = (\<lambda>s. if s = ''reply'' then Inr (PDict [(''cards'', PList [PInt 1])])
                            else Inl JSONDecodeError),
         getcwd = ''/''\<rparr> ''note''
       = Inr (PList [PInt 1])"
  by (simp add: create_flashcard_def)

text \<open>
  C3, as the source has it. \<^verbatim>\<open>create_flashcard\<close> returns a value exactly when the call
  succeeds with a first choice holding text and with a usage record, the text decodes to
  an object with a \<^verbatim>\<open>cards\<close> key, and \<^verbatim>\<open>len\<close> is defined on that value (a list, a str or
  a dict); it then returns the value as decoded, whatever its shape. It raises exactly in
  the other cases, with the exception of the step that fails: the client's exception;
  \<^verbatim>\<open>IndexError\<close> when there is no choice; \<^verbatim>\<open>TypeError\<close> when the content of the first
  choice is \<^verbatim>\<open>None\<close>; the decoder's exception; \<^verbatim>\<open>TypeError\<close> when the decoded value is
  not an object and \<^verbatim>\<open>KeyError\<close> when it has no \<^verbatim>\<open>cards\<close> key; \<^verbatim>\<open>TypeError\<close> when the
  \<^verbatim>\<open>cards\<close> value has no length; \<^verbatim>\<open>AttributeError\<close> when the usage record is missing.
\<close>

theorem create_flashcard_outcome:
  "(create_flashcard E content = Inr flashcards \<longleftrightarrow>
      (\<exists>resp reply others d total_tokens.
         chat E (user_message content) = Inr resp
         \<and> choices resp = Some reply # others
         \<and> json_loads E reply = Inr (PDict d)
         \<and> map_of d ''cards'' = Some flashcards
         \<and> (isinstance_list flashcards \<or> isinstance_str flashcards \<or> isinstance_dict flashcards)
         \<and> usage resp = Some total_tokens))
   \<and> (create_flashcard E content = Inl e \<longleftrightarrow>
        chat E (user_message content) = Inl e
      \<or> (\<exists>resp. chat E (user_message content) = Inr resp \<and>
            ((choices resp = [] \<and> e = IndexError)
           \<or> (\<exists>others. choices resp = None # others \<and> e = TypeError)
           \<or> (\<exists>reply others. choices resp = Some reply # others \<and>
                 (json_loads E reply = Inl e
                \<or> (\<exists>decoded. json_loads E reply = Inr decoded \<and>
                      ((\<not> isinstance_dict decoded \<and> e = TypeError)
                     \<or> (\<exists>d. decoded = PDict d \<and>
                           ((map_of d ''cards'' = None \<and> e = KeyError ''cards'')
                          \<or> (\<exists>cards. map_of d ''cards'' = Some cards \<and>
                                ((\<not> isinstance_list cards \<and> \<not> isinstance_str cards
                                    \<and> \<not> isinstance_dict cards \<and> e = TypeError)
                               \<or> ((isinstance_list cards \<or> isinstance_str cards
                                     \<or> isinstance_dict cards)
                                    \<and> usage resp = None \<and> e = AttributeError))))))))))))"
proof (cases "chat E (user_message content)")
  case (Inl x)
  then show ?thesis by (auto simp: create_flashcard_def)
next
  case (Inr resp)
  note c = this
  show ?thesis
  proof (cases "choices resp")
    case Nil
    with c show ?thesis by (auto simp: create_flashcard_def)
  next
    case (Cons mc others)
    note ch = this
    show ?thesis
    proof (cases mc)
      case None
      with c ch show ?thesis by (auto simp: create_flashcard_def)
    next
      case (Some reply)
      with ch have ch': "choices resp = Some reply # others" by simp
      show ?thesis
      proof (cases "json_loads E reply")
        case (Inl x)
        with c ch' show ?thesis by (auto simp: create_flashcard_def)
      next
        case (Inr decoded)
        from create_flashcard_decoded_Inr [OF c ch' Inr, of flashcards]
          create_flashcard_decoded_Inl [OF c ch' Inr, of e] c ch' Inr
        show ?thesis by auto
      qed
    qed
  qed
qed

text \<open>
  A reply whose cards fail the shape check (returned all the same), a failing call, a
  reply without the \<^verbatim>\<open>cards\<close> key, and a \<^verbatim>\<open>cards\<close> value without a length.
\<close>

theorem create_flashcard_outcome_witness:
  "create_flashcard
        \<lparr>repr_other = (\<lambda>v. []),
         chat = (\<lambda>m. Inr \<lparr>choices = [Some ''reply''], usage = Some 12\<rparr>),
         json_loads = (\<lambda>s. Inr (PDict [(''cards'', PList [PInt 1])])),
         getcwd = ''/''\<rparr> ''note''
       = Inr (PList [PInt 1])
   \<and> create_flashcard
        \<lparr>repr_other = (\<lambda>v. []),
         chat = (\<lambda>m. Inl (ClientError ''timeout'')),
         json_loads = (\<lambda>s. Inr (PDict [(''cards'', PList [PInt 1])])),
         getcwd = ''/''\<rparr> ''note''
       = Inl (ClientError ''timeout'')
   \<and> create_flashcard
        \<lparr>repr_other = (\<lambda>v. []),
         chat = (\<lambda>m. Inr \<lparr>choices = [Some ''reply''], usage = Some 12\<rparr>),
         json_loads = (\<lambda>s. Inr (PDict [(''flashcards'', PList [])])),
         getcwd = ''/''\<rparr> ''note''
       = Inl (KeyError ''cards'')
   \<and> create_flashcard
        \<lparr>repr_other = (\<lambda>v. []),
         chat = (\<lambda>m. Inr \<lparr>choices = [Some ''reply''], usage = Some 12\<rparr>),
         json_loads = (\<lambda>s. Inr (PDict [(''cards'', PInt 5)])),
         getcwd = ''/''\<rparr> ''note''
       = Inl TypeError"
  using create_flashcard_outcome
      [of "\<lparr>repr_other = (\<lambda>v. []),
         chat = (\<lambda>m. Inr \<lparr>choices = [Some ''reply''], usage = Some 12\<rparr>),
         json_loads = (\<lambda>s. Inr (PDict [(''cards'', PList [PInt 1])])),
         getcwd = ''/''\<rparr>" "''note''" "PList [PInt 1]" TypeError]
    create_flashcard_outcome
      [of "\<lparr>repr_other = (\<lambda>v. []),
         chat = (\<lambda>m. Inl (ClientError ''timeout'')),
         json_loads = (\<lambda>s. Inr (PDict [(''cards'', PList [PInt 1])])),
         getcwd = ''/''\<rparr>" "''note''" "PList []" "ClientError ''timeout''"]
    create_flashcard_outcome
      [of "\<lparr>repr_other = (\<lambda>v. []),
         chat = (\<lambda>m. Inr \<lparr>choices = [Some ''reply''], usage = Some 12\<rparr>),
         json_loads = (\<lambda>s. Inr (PDict [(''flashcards'', PList [])])),
         getcwd = ''/''\<rparr>" "''note''" "PList []" "KeyError ''cards''"]
    create_flashcard_outcome
      [of "\<lparr>repr_other = (\<lambda>v. []),
         chat = (\<lambda>m. Inr \<lparr>choices = [Some ''reply''], usage = Some 12\<rparr>),
         json_loads = (\<lambda>s. Inr (PDict [(''cards'', PInt 5)])),
         getcwd = ''/''\<rparr>" "''note''" "PList []" "TypeError"]
  by simp

text \<open>
  C4. \<^verbatim>\<open>validate_flashcards\<close> returns without error exactly on a list of records that each
  hold a string \<^verbatim>\<open>front\<close> and a string \<^verbatim>\<open>back\<close>. When it raises, the message states a
  constraint the input breaks: the value is not a list, or some card of the list is not a
  record, lacks one of the two keys, or holds a value that is not a string.
\<close>

theorem validate_flashcards_contract:
  "(validate_flashcards v = Inr () \<longleftrightarrow>
      (\<exists>cards. v = PList cards \<and>
         (\<forall>c \<in> set cards. \<exists>d f b. c = PDict d \<and> map_of d ''front'' = Some (PStr f)
             \<and> map_of d ''back'' = Some (PStr b))))
   \<and> (validate_flashcards v = Inl e \<longrightarrow>
        (\<not> isinstance_list v \<and> e = ValueError ''Flashcards must be a list.'')
      \<or> (\<exists>cards c. v = PList cards \<and> c \<in> set cards \<and> spec_card_violation c e))"
proof (rule conjI)
  show "validate_flashcards v = Inr () \<longleftrightarrow>
      (\<exists>cards. v = PList cards \<and>
         (\<forall>c \<in> set cards. \<exists>d f b. c = PDict d \<and> map_of d ''front'' = Some (PStr f)
             \<and> map_of d ''back'' = Some (PStr b)))"
    by (rule validate_flashcards_ok_iff)
next
  show "validate_flashcards v = Inl e \<longrightarrow>
        (\<not> isinstance_list v \<and> e = ValueError ''Flashcards must be a list.'')
      \<or> (\<exists>cards c. v = PList cards \<and> c \<in> set cards \<and> spec_card_violation c e)"
    by (rule impI) (rule validate_flashcards_error)
qed

text \<open>
  The four failing inputs the specification lists, each with its message, and a
  well-shaped list.
\<close>

theorem validate_flashcards_contract_witness:
  "validate_flashcards (PInt 3) = Inl (ValueError ''Flashcards must be a list.'')
   \<and> validate_flashcards (PList [PStr ''x''])
       = Inl (ValueError ''Each flashcard must be a dict.'')
   \<and> validate_flashcards (PList [PDict [(''front'', PStr ''q'')]])
       = Inl (ValueError ''Each flashcard must have a 'front' and 'back' key.'')
   \<and> validate_flashcards (PList [PDict [(''front'', PInt 1), (''back'', PStr ''a'')]])
       = Inl (ValueError ''The 'front' and 'back' keys must be strings.'')
   \<and> validate_flashcards (PList [PDict [(''front'', PStr ''q''), (''back'', PStr ''a'')]])
       = Inr ()"
proof -
  have "\<forall>c \<in> set [PDict [(''front'', PStr ''q''), (''back'', PStr ''a'')]].
          \<exists>d f b. c = PDict d \<and> map_of d ''front'' = Some (PStr f)
             \<and> map_of d ''back'' = Some (PStr b)"
    by simp
  then have "\<exists>cards. PList [PDict [(''front'', PStr ''q''), (''back'', PStr ''a'')]] = PList cards
      \<and> (\<forall>c \<in> set cards. \<exists>d f b. c = PDict d \<and> map_of d ''front'' = Some (PStr f)
             \<and> map_of d ''back'' = Some (PStr b))"
    by blast
  with validate_flashcards_contract
         [of "PList [PDict [(''front'', PStr ''q''), (''back'', PStr ''a'')]]" TypeError]
  have ok: "validate_flashcards (PList [PDict [(''front'', PStr ''q''), (''back'', PStr ''a'')]])
              = Inr ()"
    by (simp only:)
  show ?thesis
    by (intro conjI ok) simp_all
qed

text \<open>
  C5. With any style name other than \<^verbatim>\<open>obsidian_spaced_repetition\<close>,
  \<^verbatim>\<open>format_flashcards\<close> raises (a \<^verbatim>\<open>ValueError\<close> naming the style) and returns no string,
  whatever the flashcards.
\<close>

theorem format_flashcards_unsupported_style:
  "format_type \<noteq> ''obsidian_spaced_repetition'' \<Longrightarrow>
   format_flashcards R flashcards format_type include_tag
     = Inl (ValueError (''Invalid format type: '' @ format_type))"
  by (simp add: format_flashcards_def)

theorem format_flashcards_unsupported_style_witness:
  "''anki'' \<noteq> ''obsidian_spaced_repetition''
   \<and> format_flashcards (\<lambda>v. [])
        (PList [PDict [(''front'', PStr ''q''), (''back'', PStr ''a'')]]) ''anki'' True
      = Inl (ValueError ''Invalid format type: anki'')"
  using format_flashcards_unsupported_style
    [of "''anki''" "\<lambda>v. []" "PList [PDict [(''front'', PStr ''q''), (''back'', PStr ''a'')]]" True]
  by simp

text \<open>
  C6. On a list of records, in the recognised style, \<^verbatim>\<open>format_flashcards\<close> never raises:
  it returns the tag (if asked for) followed, in input order, by the block of every
  record with both keys, and by nothing for a record that lacks one.
\<close>

theorem format_flashcards_renders_records:
  "\<forall>c \<in> set cards. isinstance_dict c \<Longrightarrow>
   format_flashcards R (PList cards) ''obsidian_spaced_repetition'' include_tag
     = Inr ((if include_tag then ''#flashcards\<newline>\<newline>'' else [])
            @ concat (map (spec_card_block R) cards))"
  by (simp add: format_flashcards_def format_cards_dicts)

theorem format_flashcards_renders_records_witness:
  "format_flashcards (\<lambda>v. [])
        (PList [PDict [(''front'', PStr ''q1''), (''back'', PStr ''a1'')],
                PDict [(''front'', PStr ''lost'')],
                PDict [(''back'', PStr ''a2''), (''front'', PStr ''q2'')]])
        ''obsidian_spaced_repetition'' False
      = Inr ''q1\<newline>?\<newline>a1\<newline>\<newline>q2\<newline>?\<newline>a2\<newline>\<newline>''"
  using format_flashcards_renders_records
    [of "[PDict [(''front'', PStr ''q1''), (''back'', PStr ''a1'')],
          PDict [(''front'', PStr ''lost'')],
          PDict [(''back'', PStr ''a2''), (''front'', PStr ''q2'')]]" "\<lambda>v. []" False]
  by (simp add: spec_card_block_def)

text \<open>
  C7. The record \<^verbatim>\<open>{"front": "Capital of France?", "back": "Paris"}\<close>, formatted with the
  tag, gives exactly \<^verbatim>\<open>#flashcards\n\nCapital of France?\n?\nParis\n\n\<close>.
\<close>

theorem format_flashcards_capital_of_france:
  "format_flashcards R
     (PList [PDict [(''front'', PStr ''Capital of France?''), (''back'', PStr ''Paris'')]])
     ''obsidian_spaced_repetition'' True
   = Inr ''#flashcards\<newline>\<newline>Capital of France?\<newline>?\<newline>Paris\<newline>\<newline>''"
  by (simp add: format_flashcards_def format_card_def)

text \<open>
  C8. On a list in which every record lacks \<^verbatim>\<open>front\<close> or \<^verbatim>\<open>back\<close> (the empty list
  included), the result is the tag line and a blank line when the tag is asked for, and
  the empty string otherwise.
\<close>

theorem format_flashcards_nothing_to_render:
  "\<forall>c \<in> set cards. \<exists>d. c = PDict d \<and> (map_of d ''front'' = None \<or> map_of d ''back'' = None)
   \<Longrightarrow> format_flashcards R (PList cards) ''obsidian_spaced_repetition'' include_tag
         = Inr (if include_tag then ''#flashcards\<newline>\<newline>'' else [])"
  by (simp add: format_flashcards_def format_cards_all_missing)

theorem format_flashcards_nothing_to_render_witness:
  "format_flashcards (\<lambda>v. []) (PList []) ''obsidian_spaced_repetition'' False = Inr []
   \<and> format_flashcards (\<lambda>v. []) (PList []) ''obsidian_spaced_repetition'' True
       = Inr ''#flashcards\<newline>\<newline>''
   \<and> format_flashcards (\<lambda>v. [])
        (PList [PDict [(''front'', PStr ''q'')], PDict [(''back'', PStr ''a'')], PDict []])
        ''obsidian_spaced_repetition'' True
       = Inr ''#flashcards\<newline>\<newline>''"
  using format_flashcards_nothing_to_render [of "[]" "\<lambda>v. []" False]
    format_flashcards_nothing_to_render [of "[]" "\<lambda>v. []" True]
    format_flashcards_nothing_to_render
      [of "[PDict [(''front'', PStr ''q'')], PDict [(''back'', PStr ''a'')], PDict []]"
          "\<lambda>v. []" True]
  by simp

text \<open>
  C9. The specification: the parent of the output path is created before the existence
  test, so output directories are created as a side effect even for notes that are then
  skipped because their output exists. On a tree where the output of \<^verbatim>\<open>sub/b.md\<close> exists,
  the note is skipped and no directory is created: the state after the loop body is the
  state before it.
\<close>

theorem skipped_note_creates_no_directory_counterexample:
  "process_files_file stub_env notes_generator False ''/notes/sub'' ''b.md''
      \<lparr>fs_dirs = [[''notes''], [''notes'', ''sub''], [''notes'', ''flashcards''],
                  [''notes'', ''flashcards'', ''sub'']],
       fs_files = [([''notes'', ''sub'', ''b.md''], ''beta''),
                   ([''notes'', ''flashcards'', ''sub'', ''b.md''], ''kept'')],
       generated = [], stdout = []\<rparr>
     = (Inr (),
      \<lparr>fs_dirs = [[''notes''], [''notes'', ''sub''], [''notes'', ''flashcards''],
                  [''notes'', ''flashcards'', ''sub'']],
       fs_files = [([''notes'', ''sub'', ''b.md''], ''beta''),
                   ([''notes'', ''flashcards'', ''sub'', ''b.md''], ''kept'')],
       generated = [], stdout = []\<rparr>)"
  by (simp add: process_files_file_def path_defs fs_defs)

text \<open>
  C9, as the source has it. For a note, \<^verbatim>\<open>os.makedirs\<close> on the parent of the output path
  runs first: if it raises, the loop body raises and nothing else is done; otherwise the
  existence test is made on the state it leaves, in which the parent is a directory
  (unless its last component is \<^verbatim>\<open>.\<close>). When the output path exists before the loop body
  runs (it holds a slash, as every output path of a generator set up by \<^verbatim>\<open>__init__\<close>
  does), \<^verbatim>\<open>os.makedirs\<close> creates nothing and, with \<^verbatim>\<open>overwrite_files\<close> false, the note is
  skipped with the state unchanged. So a skipped note leaves a new directory behind only
  if its output path does not exist before \<^verbatim>\<open>os.makedirs\<close> runs and exists after it, as
  with \<^verbatim>\<open>..\<close> after a missing component: with the output directory
  \<^verbatim>\<open>/missing/../out/flashcards\<close> and \<^verbatim>\<open>/out/flashcards/a.md\<close> in place, \<^verbatim>\<open>/missing\<close> is
  created and the note is then skipped.
\<close>

theorem process_files_makedirs_then_check:
  "(endswith fname ''.md''
      \<and> relpath (getcwd E) (path_join root fname) (input_dir self) = Inr rel
    \<longrightarrow>
      (\<forall>e w1. makedirs (getcwd E) (dirname (path_join (output_dir self) rel)) w = (Inl e, w1)
         \<longrightarrow> process_files_file E self overwrite_files root fname w = (Inl e, w1))
    \<and> (\<forall>w1. makedirs (getcwd E) (dirname (path_join (output_dir self) rel)) w = (Inr (), w1)
         \<longrightarrow> process_files_file E self overwrite_files root fname w
               = (if path_exists (getcwd E) w1 (path_join (output_dir self) rel)
                     \<and> \<not> overwrite_files
                  then (Inr (), w1)
                  else process_file E (path_join root fname)
                         (path_join (output_dir self) rel) False w1)
             \<and> (snd (makedirs_split (dirname (path_join (output_dir self) rel))) \<noteq> ''.''
                  \<longrightarrow> path_isdir (getcwd E) w1
                        (dirname (path_join (output_dir self) rel))))
    \<and> (path_exists (getcwd E) w (path_join (output_dir self) rel)
          \<and> CHR ''/'' \<in> set (path_join (output_dir self) rel)
        \<longrightarrow> makedirs (getcwd E) (dirname (path_join (output_dir self) rel)) w = (Inr (), w)
            \<and> process_files_file E self False root fname w = (Inr (), w)))
   \<and> (getcwd E \<noteq> []
        \<longrightarrow> CHR ''/'' \<in> set (path_join (output_dir (init E input_dir_arg output_dir_arg)) rel'))
   \<and> process_files_file E
        \<lparr>input_dir = ''/notes'', output_dir = ''/missing/../out/flashcards''\<rparr>
        False ''/notes'' ''a.md''
        \<lparr>fs_dirs = [[''notes''], [''out''], [''out'', ''flashcards'']],
         fs_files = [([''notes'', ''a.md''], a), ([''out'', ''flashcards'', ''a.md''], old)],
         generated = [], stdout = []\<rparr>
       = (Inr (),
        \<lparr>fs_dirs = [[''notes''], [''out''], [''out'', ''flashcards''], [''missing'']],
         fs_files = [([''notes'', ''a.md''], a), ([''out'', ''flashcards'', ''a.md''], old)],
         generated = [], stdout = []\<rparr>)"
proof (intro conjI impI allI)
  fix e w1
  assume h: "endswith fname ''.md''
      \<and> relpath (getcwd E) (path_join root fname) (input_dir self) = Inr rel"
    and m: "makedirs (getcwd E) (dirname (path_join (output_dir self) rel)) w = (Inl e, w1)"
  then show "process_files_file E self overwrite_files root fname w = (Inl e, w1)"
    by (simp add: process_files_file_def)
next
  fix w1
  assume h: "endswith fname ''.md''
      \<and> relpath (getcwd E) (path_join root fname) (input_dir self) = Inr rel"
    and m: "makedirs (getcwd E) (dirname (path_join (output_dir self) rel)) w = (Inr (), w1)"
  then show "process_files_file E self overwrite_files root fname w
               = (if path_exists (getcwd E) w1 (path_join (output_dir self) rel)
                     \<and> \<not> overwrite_files
                  then (Inr (), w1)
                  else process_file E (path_join root fname)
                         (path_join (output_dir self) rel) False w1)"
    by (simp add: process_files_file_def)
next
  fix w1
  assume m: "makedirs (getcwd E) (dirname (path_join (output_dir self) rel)) w = (Inr (), w1)"
    and t: "snd (makedirs_split (dirname (path_join (output_dir self) rel))) \<noteq> ''.''"
  then show "path_isdir (getcwd E) w1 (dirname (path_join (output_dir self) rel))"
    by (rule makedirs_isdir)
next
  assume x: "path_exists (getcwd E) w (path_join (output_dir self) rel)
          \<and> CHR ''/'' \<in> set (path_join (output_dir self) rel)"
  then show "makedirs (getcwd E) (dirname (path_join (output_dir self) rel)) w = (Inr (), w)"
    by (intro makedirs_existing) simp_all
next
  assume h: "endswith fname ''.md''
      \<and> relpath (getcwd E) (path_join root fname) (input_dir self) = Inr rel"
    and x: "path_exists (getcwd E) w (path_join (output_dir self) rel)
          \<and> CHR ''/'' \<in> set (path_join (output_dir self) rel)"
  from x have "makedirs (getcwd E) (dirname (path_join (output_dir self) rel)) w = (Inr (), w)"
    by (intro makedirs_existing) simp_all
  with h x show "process_files_file E self False root fname w = (Inr (), w)"
    by (simp add: process_files_file_def)
next
  assume "getcwd E \<noteq> []"
  then show "CHR ''/'' \<in> set (path_join (output_dir (init E input_dir_arg output_dir_arg)) rel')"
    by (rule init_output_has_sep)
next
  show "process_files_file E
        \<lparr>input_dir = ''/notes'', output_dir = ''/missing/../out/flashcards''\<rparr>
        False ''/notes'' ''a.md''
        \<lparr>fs_dirs = [[''notes''], [''out''], [''out'', ''flashcards'']],
         fs_files = [([''notes'', ''a.md''], a), ([''out'', ''flashcards'', ''a.md''], old)],
         generated = [], stdout = []\<rparr>
       = (Inr (),
        \<lparr>fs_dirs = [[''notes''], [''out''], [''out'', ''flashcards''], [''missing'']],
         fs_files = [([''notes'', ''a.md''], a), ([''out'', ''flashcards'', ''a.md''], old)],
         generated = [], stdout = []\<rparr>)"
    by (simp add: process_files_file_def path_defs fs_defs)
qed

text \<open>
  A note whose output directories are missing (they are created, the parent is a
  directory, the note is processed), one whose output directory is barred by a file, and
  one whose output exists (it is skipped, nothing changes).
\<close>

theorem process_files_makedirs_then_check_witness:
  "process_files_file stub_env notes_generator False ''/notes/sub'' ''b.md''
      \<lparr>fs_dirs = [[''notes''], [''notes'', ''sub'']],
       fs_files = [([''notes'', ''sub'', ''b.md''], ''beta'')],
       generated = [], stdout = []\<rparr>
     = (Inr (),
      \<lparr>fs_dirs = [[''notes''], [''notes'', ''sub''], [''notes'', ''flashcards''],
                  [''notes'', ''flashcards'', ''sub'']],
       fs_files = [([''notes'', ''sub'', ''b.md''], ''beta''),
                   ([''notes'', ''flashcards'', ''sub'', ''b.md''],
                    ''#flashcards\<newline>\<newline>Q\<newline>?\<newline>A\<newline>\<newline>'')],
       generated = [''beta''], stdout = []\<rparr>)
   \<and> path_isdir ''/''
      \<lparr>fs_dirs = [[''notes''], [''notes'', ''sub''], [''notes'', ''flashcards''],
                  [''notes'', ''flashcards'', ''sub'']],
       fs_files = [([''notes'', ''sub'', ''b.md''], ''beta'')],
       generated = [], stdout = []\<rparr> ''/notes/flashcards/sub''
   \<and> process_files_file stub_env notes_generator False ''/notes/sub'' ''b.md''
      \<lparr>fs_dirs = [[''notes''], [''notes'', ''sub''], [''notes'', ''flashcards'']],
       fs_files = [([''notes'', ''sub'', ''b.md''], ''beta''),
                   ([''notes'', ''flashcards'', ''sub''], ''in the way'')],
       generated = [], stdout = []\<rparr>
     = (Inl FileExistsError,
      \<lparr>fs_dirs = [[''notes''], [''notes'', ''sub''], [''notes'', ''flashcards'']],
       fs_files = [([''notes'', ''sub'', ''b.md''], ''beta''),
                   ([''notes'', ''flashcards'', ''sub''], ''in the way'')],
       generated = [], stdout = []\<rparr>)
   \<and> process_files_file stub_env notes_generator False ''/notes'' ''a.md''
      \<lparr>fs_dirs = [[''notes''], [''notes'', ''flashcards'']],
       fs_files = [([''notes'', ''a.md''], ''alpha''),
                   ([''notes'', ''flashcards'', ''a.md''], ''kept'')],
       generated = [], stdout = []\<rparr>
     = (Inr (),
      \<lparr>fs_dirs = [[''notes''], [''notes'', ''flashcards'']],
       fs_files = [([''notes'', ''a.md''], ''alpha''),
                   ([''notes'', ''flashcards'', ''a.md''], ''kept'')],
       generated = [], stdout = []\<rparr>)
   \<and> CHR ''/'' \<in> set (path_join (output_dir (init stub_env (Some ''/notes'') None)) ''a.md'')"
proof -
  note t1 = process_files_makedirs_then_check
    [where E = stub_env and self = notes_generator and root = "''/notes/sub''"
       and fname = "''b.md''" and rel = "''sub/b.md''" and overwrite_files = False
       and w = "\<lparr>fs_dirs = [[''notes''], [''notes'', ''sub'']],
                 fs_files = [([''notes'', ''sub'', ''b.md''], ''beta'')],
                 generated = [], stdout = []\<rparr>"]
  note t2 = process_files_makedirs_then_check
    [where E = stub_env and self = notes_generator and root = "''/notes/sub''"
       and fname = "''b.md''" and rel = "''sub/b.md''" and overwrite_files = False
       and w = "\<lparr>fs_dirs = [[''notes''], [''notes'', ''sub''], [''notes'', ''flashcards'']],
                 fs_files = [([''notes'', ''sub'', ''b.md''], ''beta''),
                             ([''notes'', ''flashcards'', ''sub''], ''in the way'')],
                 generated = [], stdout = []\<rparr>"]
  note t3 = process_files_makedirs_then_check
    [where E = stub_env and self = notes_generator and root = "''/notes''"
       and fname = "''a.md''" and rel = "''a.md''" and overwrite_files = False
       and w = "\<lparr>fs_dirs = [[''notes''], [''notes'', ''flashcards'']],
                 fs_files = [([''notes'', ''a.md''], ''alpha''),
                             ([''notes'', ''flashcards'', ''a.md''], ''kept'')],
                 generated = [], stdout = []\<rparr>"]
  note t4 = process_files_makedirs_then_check
    [where E = stub_env and input_dir_arg = "Some ''/notes''" and output_dir_arg = None
       and rel' = "''a.md''"]
  have cw: "getcwd stub_env \<noteq> []" by simp
  from t4 cw have c4:
    "CHR ''/'' \<in> set (path_join (output_dir (init stub_env (Some ''/notes'') None)) ''a.md'')"
    by blast
  have md: "endswith ''b.md'' ''.md''" "endswith ''a.md'' ''.md''"
    by (simp_all add: endswith_def)
  have r1: "relpath (getcwd stub_env) (path_join ''/notes/sub'' ''b.md'') (input_dir notes_generator)
              = Inr ''sub/b.md''"
    by (simp add: path_defs)
  have r3: "relpath (getcwd stub_env) (path_join ''/notes'' ''a.md'') (input_dir notes_generator)
              = Inr ''a.md''"
    by (simp add: path_defs)
  have m1: "makedirs (getcwd stub_env) (dirname (path_join (output_dir notes_generator) ''sub/b.md''))
      \<lparr>fs_dirs = [[''notes''], [''notes'', ''sub'']],
       fs_files = [([''notes'', ''sub'', ''b.md''], ''beta'')],
       generated = [], stdout = []\<rparr>
     = (Inr (), \<lparr>fs_dirs = [[''notes''], [''notes'', ''sub''], [''notes'', ''flashcards''],
                  [''notes'', ''flashcards'', ''sub'']],
       fs_files = [([''notes'', ''sub'', ''b.md''], ''beta'')],
       generated = [], stdout = []\<rparr>)"
    by (simp add: path_defs fs_defs)
  have m2: "makedirs (getcwd stub_env) (dirname (path_join (output_dir notes_generator) ''sub/b.md''))
      \<lparr>fs_dirs = [[''notes''], [''notes'', ''sub''], [''notes'', ''flashcards'']],
       fs_files = [([''notes'', ''sub'', ''b.md''], ''beta''),
                   ([''notes'', ''flashcards'', ''sub''], ''in the way'')],
       generated = [], stdout = []\<rparr>
     = (Inl FileExistsError,
      \<lparr>fs_dirs = [[''notes''], [''notes'', ''sub''], [''notes'', ''flashcards'']],
       fs_files = [([''notes'', ''sub'', ''b.md''], ''beta''),
                   ([''notes'', ''flashcards'', ''sub''], ''in the way'')],
       generated = [], stdout = []\<rparr>)"
    by (simp add: path_defs fs_defs)
  have x3: "path_exists (getcwd stub_env)
      \<lparr>fs_dirs = [[''notes''], [''notes'', ''flashcards'']],
       fs_files = [([''notes'', ''a.md''], ''alpha''),
                   ([''notes'', ''flashcards'', ''a.md''], ''kept'')],
       generated = [], stdout = []\<rparr> (path_join (output_dir notes_generator) ''a.md'')
     \<and> CHR ''/'' \<in> set (path_join (output_dir notes_generator) ''a.md'')"
    by (simp add: path_defs fs_defs)
  have t: "snd (makedirs_split (dirname (path_join (output_dir notes_generator) ''sub/b.md'')))
             \<noteq> ''.''"
    by (simp add: path_defs fs_defs)
  from t1 md(1) r1 m1 t have c1:
    "process_files_file stub_env notes_generator False ''/notes/sub'' ''b.md''
      \<lparr>fs_dirs = [[''notes''], [''notes'', ''sub'']],
       fs_files = [([''notes'', ''sub'', ''b.md''], ''beta'')],
       generated = [], stdout = []\<rparr>
     = process_file stub_env (path_join ''/notes/sub'' ''b.md'')
         (path_join (output_dir notes_generator) ''sub/b.md'') False
         \<lparr>fs_dirs = [[''notes''], [''notes'', ''sub''], [''notes'', ''flashcards''],
                  [''notes'', ''flashcards'', ''sub'']],
          fs_files = [([''notes'', ''sub'', ''b.md''], ''beta'')],
          generated = [], stdout = []\<rparr>"
    and c1b: "path_isdir ''/''
      \<lparr>fs_dirs = [[''notes''], [''notes'', ''sub''], [''notes'', ''flashcards''],
                  [''notes'', ''flashcards'', ''sub'']],
       fs_files = [([''notes'', ''sub'', ''b.md''], ''beta'')],
       generated = [], stdout = []\<rparr> ''/notes/flashcards/sub''"
    by (simp_all add: path_defs fs_defs)
  from t2 md(1) r1 m2 have c2:
    "process_files_file stub_env notes_generator False ''/notes/sub'' ''b.md''
      \<lparr>fs_dirs = [[''notes''], [''notes'', ''sub''], [''notes'', ''flashcards'']],
       fs_files = [([''notes'', ''sub'', ''b.md''], ''beta''),
                   ([''notes'', ''flashcards'', ''sub''], ''in the way'')],
       generated = [], stdout = []\<rparr>
     = (Inl FileExistsError,
      \<lparr>fs_dirs = [[''notes''], [''notes'', ''sub''], [''notes'', ''flashcards'']],
       fs_files = [([''notes'', ''sub'', ''b.md''], ''beta''),
                   ([''notes'', ''flashcards'', ''sub''], ''in the way'')],
       generated = [], stdout = []\<rparr>)"
    by blast
  from t3 md(2) r3 x3 have c3:
    "process_files_file stub_env notes_generator False ''/notes'' ''a.md''
      \<lparr>fs_dirs = [[''notes''], [''notes'', ''flashcards'']],
       fs_files = [([''notes'', ''a.md''], ''alpha''),
                   ([''notes'', ''flashcards'', ''a.md''], ''kept'')],
       generated = [], stdout = []\<rparr>
     = (Inr (),
      \<lparr>fs_dirs = [[''notes''], [''notes'', ''flashcards'']],
       fs_files = [([''notes'', ''a.md''], ''alpha''),
                   ([''notes'', ''flashcards'', ''a.md''], ''kept'')],
       generated = [], stdout = []\<rparr>)"
    by blast
  show ?thesis
    by (intro conjI c1b c2 c3 c4)
       (simp add: c1 process_file_def create_flashcard_def format_flashcards_def
          format_card_def path_defs fs_defs)
qed

text \<open>
  C10. A record with both keys is rendered whatever its values are: appending it to a list
  appends its block, each value through the f-string conversion \<open>py_str\<close>, so an empty
  string gives an empty line and a number, \<^verbatim>\<open>None\<close> or a bool gives its text.
\<close>

theorem format_flashcards_key_presence_only:
  assumes "map_of d ''front'' = Some front"
    and "map_of d ''back'' = Some back"
    and "format_flashcards R (PList cards) format_type include_tag = Inr out"
  shows "format_flashcards R (PList (cards @ [PDict d])) format_type include_tag
           = Inr (out @ py_str R front @ ''\<newline>?\<newline>'' @ py_str R back @ ''\<newline>\<newline>'')"
  using assms
  by (simp add: format_flashcards_def format_cards_append format_card_def split: if_splits)

theorem format_flashcards_key_presence_only_witness:
  "format_flashcards (\<lambda>v. []) (PList [PDict [(''front'', PStr []), (''back'', PInt 42)]])
      ''obsidian_spaced_repetition'' False
     = Inr ''\<newline>?\<newline>42\<newline>\<newline>''
   \<and> format_flashcards (\<lambda>v. []) (PList [PDict [(''front'', PNone), (''back'', PBool True)]])
      ''obsidian_spaced_repetition'' False
     = Inr ''None\<newline>?\<newline>True\<newline>\<newline>''"
  using format_flashcards_key_presence_only
      [of "[(''front'', PStr []), (''back'', PInt 42)]" "PStr []" "PInt 42" "\<lambda>v. []" "[]"
          "''obsidian_spaced_repetition''" False "[]"]
    format_flashcards_key_presence_only
      [of "[(''front'', PNone), (''back'', PBool True)]" "PNone" "PBool True" "\<lambda>v. []" "[]"
          "''obsidian_spaced_repetition''" False "[]"]
  by (simp add: format_flashcards_def str_int_def digits.simps)

end
